theory Spec2Isabelle
  imports Complex_Main
begin

section \<open>JavaScript numbers\<close>

text \<open>
  The colour picker (\<^verbatim>\<open>src/picker.js\<close>) computes with JavaScript numbers. They are
  embedded as exact reals extended with the two infinities and NaN: comparisons with NaN
  are false, NaN propagates through arithmetic, division by zero gives an infinity or
  NaN. The rounding of IEEE doubles and the sign of zero are not part of the embedding:
  every finite result is the exact real one.
\<close>

datatype jsnum = Fin real | PInf | NInf | NaN

text \<open>A value as a function argument: a number, or anything whose \<^verbatim>\<open>typeof\<close> is not
  \<^verbatim>\<open>'number'\<close> (a string, \<^verbatim>\<open>undefined\<close>, an object ...).\<close>

datatype jsval = Number jsnum | NotNumber

datatype error = Error string | TypeError

text \<open>The relational operators \<^verbatim>\<open><\<close>, \<^verbatim>\<open>>\<close>, \<^verbatim>\<open><=\<close>, \<^verbatim>\<open>>=\<close>, \<^verbatim>\<open>===\<close> and
  \<^verbatim>\<open>!==\<close> on numbers.\<close>

fun js_lt :: "jsnum \<Rightarrow> jsnum \<Rightarrow> bool" where
  "js_lt NaN _ = False"
| "js_lt _ NaN = False"
| "js_lt (Fin x) (Fin y) = (x < y)"
| "js_lt _ NInf = False"
| "js_lt NInf _ = True"
| "js_lt PInf _ = False"
| "js_lt _ PInf = True"

fun js_seq :: "jsnum \<Rightarrow> jsnum \<Rightarrow> bool" where
  "js_seq NaN _ = False"
| "js_seq _ NaN = False"
| "js_seq a b = (a = b)"

definition js_gt :: "jsnum \<Rightarrow> jsnum \<Rightarrow> bool" where
  "js_gt a b = js_lt b a"

definition js_le :: "jsnum \<Rightarrow> jsnum \<Rightarrow> bool" where
  "js_le a b = (js_lt a b \<or> js_seq a b)"

definition js_ge :: "jsnum \<Rightarrow> jsnum \<Rightarrow> bool" where
  "js_ge a b = js_le b a"

definition js_sne :: "jsnum \<Rightarrow> jsnum \<Rightarrow> bool" where
  "js_sne a b = (\<not> js_seq a b)"

text \<open>Arithmetic. \<open>signed_inf s\<close> is the result of an operation that overflows to an
  infinity of sign \<open>s\<close>, and NaN when the sign is undetermined (\<open>0 * Infinity\<close>,
  \<open>0 / 0\<close>).\<close>

fun js_sgn :: "jsnum \<Rightarrow> real" where
  "js_sgn (Fin x) = sgn x"
| "js_sgn PInf = 1"
| "js_sgn NInf = - 1"
| "js_sgn NaN = 0"

definition signed_inf :: "real \<Rightarrow> jsnum" where
  "signed_inf s = (if s = 0 then NaN else if 0 < s then PInf else NInf)"

fun js_neg :: "jsnum \<Rightarrow> jsnum" where
  "js_neg (Fin x) = Fin (- x)"
| "js_neg PInf = NInf"
| "js_neg NInf = PInf"
| "js_neg NaN = NaN"

fun js_add :: "jsnum \<Rightarrow> jsnum \<Rightarrow> jsnum" where
  "js_add NaN _ = NaN"
| "js_add _ NaN = NaN"
| "js_add (Fin x) (Fin y) = Fin (x + y)"
| "js_add PInf NInf = NaN"
| "js_add NInf PInf = NaN"
| "js_add PInf _ = PInf"
| "js_add _ PInf = PInf"
| "js_add NInf _ = NInf"
| "js_add _ NInf = NInf"

definition js_sub :: "jsnum \<Rightarrow> jsnum \<Rightarrow> jsnum" where
  "js_sub a b = js_add a (js_neg b)"

fun js_mul :: "jsnum \<Rightarrow> jsnum \<Rightarrow> jsnum" where
  "js_mul NaN _ = NaN"
| "js_mul _ NaN = NaN"
| "js_mul (Fin x) (Fin y) = Fin (x * y)"
| "js_mul a b = signed_inf (js_sgn a * js_sgn b)"

fun js_div :: "jsnum \<Rightarrow> jsnum \<Rightarrow> jsnum" where
  "js_div NaN _ = NaN"
| "js_div _ NaN = NaN"
| "js_div (Fin x) (Fin y) = (if y = 0 then signed_inf (sgn x) else Fin (x / y))"
| "js_div (Fin x) _ = Fin 0"
| "js_div a (Fin y) = signed_inf (js_sgn a * (if y < 0 then - 1 else 1))"
| "js_div _ _ = NaN"

text \<open>\<^verbatim>\<open>Math.max\<close>, \<^verbatim>\<open>Math.min\<close> of two numbers: NaN if either is NaN.\<close>

definition math_max :: "jsnum \<Rightarrow> jsnum \<Rightarrow> jsnum" where
  "math_max a b = (if a = NaN \<or> b = NaN then NaN else if js_lt a b then b else a)"

definition math_min :: "jsnum \<Rightarrow> jsnum \<Rightarrow> jsnum" where
  "math_min a b = (if a = NaN \<or> b = NaN then NaN else if js_lt b a then b else a)"

text \<open>\<^verbatim>\<open>Math.round\<close>: the nearest integer, a tie going up.\<close>

fun math_round :: "jsnum \<Rightarrow> jsnum" where
  "math_round (Fin x) = Fin (of_int \<lfloor>x + 1 / 2\<rfloor>)"
| "math_round a = a"

text \<open>\<^verbatim>\<open>Math.pow\<close>, in the order of the cases of the language definition. The program
  calls it with the finite exponents \<open>2.4\<close> and \<open>1 / 2.4\<close> only.\<close>

definition is_int :: "real \<Rightarrow> bool" where
  "is_int y = (of_int \<lfloor>y\<rfloor> = y)"

definition is_odd_int :: "real \<Rightarrow> bool" where
  "is_odd_int y = (is_int y \<and> odd \<lfloor>y\<rfloor>)"

fun math_pow :: "jsnum \<Rightarrow> jsnum \<Rightarrow> jsnum" where
  "math_pow _ NaN = NaN"
| "math_pow b (Fin y) =
     (if y = 0 then Fin 1
      else case b of
        NaN \<Rightarrow> NaN
      | PInf \<Rightarrow> (if 0 < y then PInf else Fin 0)
      | NInf \<Rightarrow> (if 0 < y then (if is_odd_int y then NInf else PInf) else Fin 0)
      | Fin x \<Rightarrow>
          (if x = 0 then (if 0 < y then Fin 0 else PInf)
           else if 0 < x then Fin (x powr y)
           else if is_int y then Fin (x powi \<lfloor>y\<rfloor>)
           else NaN))"
| "math_pow b PInf =
     (case b of
        NaN \<Rightarrow> NaN
      | PInf \<Rightarrow> PInf
      | NInf \<Rightarrow> PInf
      | Fin x \<Rightarrow> (if 1 < \<bar>x\<bar> then PInf else if \<bar>x\<bar> = 1 then NaN else Fin 0))"
| "math_pow b NInf =
     (case b of
        NaN \<Rightarrow> NaN
      | PInf \<Rightarrow> Fin 0
      | NInf \<Rightarrow> Fin 0
      | Fin x \<Rightarrow> (if 1 < \<bar>x\<bar> then Fin 0 else if \<bar>x\<bar> = 1 then NaN else PInf))"

section \<open>The colorimetric functions\<close>

text \<open>
  Every function opens with the same guard on each colour argument,
  \<^verbatim>\<open>typeof v !== 'number' || v < 0 || v > 1\<close>, and throws an \<^verbatim>\<open>Error\<close> whose message
  names the argument. \<open>range_guard\<close> is that guard: the error, or the number that
  passed.
\<close>

definition range_message :: "string \<Rightarrow> string" where
  "range_message name = name @ '' must be number in range of 0 <= '' @ name @ '' <= 1''"

fun range_guard :: "string \<Rightarrow> jsval \<Rightarrow> error + jsnum" where
  "range_guard name NotNumber = Inl (Error (range_message name))"
| "range_guard name (Number v) =
     (if js_lt v (Fin 0) \<or> js_gt v (Fin 1) then Inl (Error (range_message name))
      else Inr v)"

definition linearize :: "jsval \<Rightarrow> error + jsnum" where
  "linearize colourValue =
     (case range_guard ''colourValue'' colourValue of
        Inl e \<Rightarrow> Inl e
      | Inr c \<Rightarrow>
          if js_le c (Fin 0.03928) then Inr (js_div c (Fin 12.92))
          else Inr (math_pow (js_div (js_add c (Fin 0.055)) (Fin 1.055)) (Fin 2.4)))"

definition calcLuminance :: "jsval \<Rightarrow> jsval \<Rightarrow> jsval \<Rightarrow> error + jsnum" where
  "calcLuminance red green blue =
     (case range_guard ''red'' red of Inl e \<Rightarrow> Inl e | Inr r \<Rightarrow>
     (case range_guard ''green'' green of Inl e \<Rightarrow> Inl e | Inr g \<Rightarrow>
     (case range_guard ''blue'' blue of Inl e \<Rightarrow> Inl e | Inr b \<Rightarrow>
     (case linearize (Number r) of Inl e \<Rightarrow> Inl e | Inr lr \<Rightarrow>
     (case linearize (Number g) of Inl e \<Rightarrow> Inl e | Inr lg \<Rightarrow>
     (case linearize (Number b) of Inl e \<Rightarrow> Inl e | Inr lb \<Rightarrow>
        Inr (js_add (js_add (js_mul (Fin 0.2126) lr) (js_mul (Fin 0.7152) lg))
                    (js_mul (Fin 0.0722) lb))))))))"

type_synonym colour = "jsnum \<times> jsnum \<times> jsnum"

text \<open>The loop of \<open>interpolateTints\<close>: \<open>i\<close> counts from 0 up to 255 and each round
  pushes one entry to the end of \<open>tint_array\<close>.\<close>

definition tint_entry :: "jsnum \<Rightarrow> jsnum \<Rightarrow> jsnum \<Rightarrow> jsnum \<Rightarrow> jsnum \<Rightarrow> jsnum \<Rightarrow> nat \<Rightarrow> colour" where
  "tint_entry red green blue delta_red delta_green delta_blue i =
     (math_max red (js_sub (Fin 1) (js_mul delta_red (Fin (real i)))),
      math_max green (js_sub (Fin 1) (js_mul delta_green (Fin (real i)))),
      math_max blue (js_sub (Fin 1) (js_mul delta_blue (Fin (real i)))))"

function tint_loop ::
  "jsnum \<Rightarrow> jsnum \<Rightarrow> jsnum \<Rightarrow> jsnum \<Rightarrow> jsnum \<Rightarrow> jsnum \<Rightarrow> nat \<Rightarrow> colour list \<Rightarrow> colour list" where
  "tint_loop red green blue delta_red delta_green delta_blue i tint_array =
     (if i < 256
      then tint_loop red green blue delta_red delta_green delta_blue (Suc i)
             (tint_array @ [tint_entry red green blue delta_red delta_green delta_blue i])
      else tint_array)"
  by pat_completeness auto
termination
  by (relation "measure (\<lambda>(r, g, b, dr, dg, db, i, acc). 256 - i)") auto

declare tint_loop.simps [simp del]

definition hue_message :: string where
  "hue_message = ''Specified colour must be a pure hue; one component must always be 1, another in the range of 0 <= N <= 1, and the last 0''"

definition interpolateTints :: "jsval \<Rightarrow> jsval \<Rightarrow> jsval \<Rightarrow> error + colour list" where
  "interpolateTints red green blue =
     (case range_guard ''red'' red of Inl e \<Rightarrow> Inl e | Inr r \<Rightarrow>
     (case range_guard ''green'' green of Inl e \<Rightarrow> Inl e | Inr g \<Rightarrow>
     (case range_guard ''blue'' blue of Inl e \<Rightarrow> Inl e | Inr b \<Rightarrow>
        if (js_sne r (Fin 0) \<and> js_sne g (Fin 0) \<and> js_sne b (Fin 0))
           \<or> (js_seq r (Fin 1) \<and> js_seq g (Fin 1) \<and> js_seq b (Fin 1))
           \<or> (js_sne r (Fin 1) \<and> js_sne g (Fin 1) \<and> js_sne b (Fin 1))
        then Inl (Error hue_message)
        else
          let delta_red = js_div (js_sub (Fin 1) r) (Fin 255);
              delta_green = js_div (js_sub (Fin 1) g) (Fin 255);
              delta_blue = js_div (js_sub (Fin 1) b) (Fin 255)
          in Inr (tint_loop r g b delta_red delta_green delta_blue 0 []))))"

definition tint_message :: string where
  "tint_message = ''Specified colour must be a pure tint; one colour component must be 1''"

definition shadeToLuminance :: "jsval \<Rightarrow> jsval \<Rightarrow> jsval \<Rightarrow> jsval \<Rightarrow> error + jsnum" where
  "shadeToLuminance targetLuminance red green blue =
     (case range_guard ''targetLuminance'' targetLuminance of Inl e \<Rightarrow> Inl e | Inr t \<Rightarrow>
     (case range_guard ''red'' red of Inl e \<Rightarrow> Inl e | Inr r \<Rightarrow>
     (case range_guard ''green'' green of Inl e \<Rightarrow> Inl e | Inr g \<Rightarrow>
     (case range_guard ''blue'' blue of Inl e \<Rightarrow> Inl e | Inr b \<Rightarrow>
        if js_sne r (Fin 1) \<and> js_sne g (Fin 1) \<and> js_sne b (Fin 1)
        then Inl (Error tint_message)
        else
          (case calcLuminance (Number r) (Number g) (Number b) of Inl e \<Rightarrow> Inl e
           | Inr tintLuminance \<Rightarrow>
              let scaledLuminance = js_div t tintLuminance
              in if js_lt scaledLuminance (Fin (0.03928 / 12.92))
                 then Inr (js_mul scaledLuminance (Fin 12.92))
                 else Inr (js_sub (js_mul (math_pow scaledLuminance (Fin (1 / 2.4))) (Fin 1.055))
                                  (Fin 0.055)))))))"

section \<open>The state of the page\<close>

text \<open>
  The variables that the \<^verbatim>\<open>DOMContentLoaded\<close> handler declares and its inner functions
  share, with the parts of the page they read (the text of the reference-colour field,
  the size of the line canvas) and draw on (the two canvases, the border of the position
  indicator). The text fields that only display a formatted number are left out.
  A function of the handler takes the state and returns the state it leaves, with the
  exception it threw, if any: the assignments made before a \<^verbatim>\<open>throw\<close> stay.
\<close>

datatype path_cmd =
  BeginPath | MoveTo jsnum jsnum | LineTo jsnum jsnum | ClosePath | Stroke | Fill

record picker =
  current_hue :: colour
  current_tints :: "colour list"
  current_colour :: colour
  current_luminance :: jsnum
  line_mode :: string
  position_left :: jsnum
  position_bottom :: jsnum
  contrast_ratio :: jsnum
  contrast_upper_luminance :: jsnum
  contrast_lower_luminance :: jsnum
  contrast_colour_input_value :: string
  line_canvas_width :: nat
  line_canvas_height :: nat
  line_canvas :: "path_cmd list"
  chart_canvas :: "nat list"
  indicator_border :: string

text \<open>\<open>line_canvas\<close> holds the calls made on the context of the line canvas since it was
  last cleared, \<open>chart_canvas\<close> the bytes of the image last put on the chart canvas
  (\<open>[]\<close> when cleared).\<close>

definition and_then :: "error option \<times> 'a \<Rightarrow> ('a \<Rightarrow> error option \<times> 'a) \<Rightarrow> error option \<times> 'a" where
  "and_then r f = (case r of (Some e, x) \<Rightarrow> (Some e, x) | (None, x) \<Rightarrow> f x)"

subsection \<open>recalculateColour\<close>

definition clamp_8bit :: "jsnum \<Rightarrow> jsnum" where
  "clamp_8bit component = js_div (math_round (js_mul component (Fin 255))) (Fin 255)"

definition recalculateColour :: "picker \<Rightarrow> error option \<times> picker" where
  "recalculateColour st =
     (case current_hue st of (hue_red, hue_green, hue_blue) \<Rightarrow>
        let tint_red = js_add (Fin 1) (js_mul (js_sub hue_red (Fin 1)) (position_left st));
            tint_green = js_add (Fin 1) (js_mul (js_sub hue_green (Fin 1)) (position_left st));
            tint_blue = js_add (Fin 1) (js_mul (js_sub hue_blue (Fin 1)) (position_left st));
            red = clamp_8bit (js_mul tint_red (js_sub (Fin 1) (position_bottom st)));
            green = clamp_8bit (js_mul tint_green (js_sub (Fin 1) (position_bottom st)));
            blue = clamp_8bit (js_mul tint_blue (js_sub (Fin 1) (position_bottom st)));
            st1 = st\<lparr>current_colour := (red, green, blue)\<rparr>
        in (case calcLuminance (Number red) (Number green) (Number blue) of
              Inl e \<Rightarrow> (Some e, st1)
            | Inr l \<Rightarrow>
                (None, st1\<lparr>current_luminance := l,
                           indicator_border :=
                             (if js_lt l (Fin 0.1792) then ''white'' else ''black'')\<rparr>)))"

subsection \<open>renderChart\<close>

text \<open>A store into the \<^verbatim>\<open>Uint8ClampedArray\<close> of the image data: NaN is 0, the value is
  clamped to 0..255 and rounded to the nearest integer, a tie going to the even one.\<close>

fun to_uint8_clamp :: "jsnum \<Rightarrow> nat" where
  "to_uint8_clamp NaN = 0"
| "to_uint8_clamp PInf = 255"
| "to_uint8_clamp NInf = 0"
| "to_uint8_clamp (Fin v) =
     (if v \<le> 0 then 0
      else if 255 \<le> v then 255
      else let f = \<lfloor>v\<rfloor>
           in if of_int f + 1 / 2 < v then nat (f + 1)
              else if v < of_int f + 1 / 2 then nat f
              else if even f then nat f else nat (f + 1))"

definition chart_pixel :: "colour \<Rightarrow> colour \<Rightarrow> nat \<Rightarrow> colour" where
  "chart_pixel tint delta i =
     (case (tint, delta) of ((tr, tg, tb), (dr, dg, db)) \<Rightarrow>
        (js_sub tr (js_mul dr (Fin (real i))),
         js_sub tg (js_mul dg (Fin (real i))),
         js_sub tb (js_mul db (Fin (real i)))))"

definition put_pixel :: "nat \<Rightarrow> colour \<Rightarrow> nat list \<Rightarrow> nat list" where
  "put_pixel idx px data =
     (case px of (r, g, b) \<Rightarrow>
        data[idx := to_uint8_clamp (js_mul r (Fin 255)),
             idx + 1 := to_uint8_clamp (js_mul g (Fin 255)),
             idx + 2 := to_uint8_clamp (js_mul b (Fin 255)),
             idx + 3 := 255])"

text \<open>The inner loop over the columns \<open>j\<close> of row \<open>i\<close>. Reading a component of
  \<^verbatim>\<open>current_tints[j]\<close> beyond the end of the array throws a \<^verbatim>\<open>TypeError\<close>.\<close>

function chart_columns ::
  "colour list \<Rightarrow> colour list \<Rightarrow> nat \<Rightarrow> nat \<Rightarrow> nat list \<Rightarrow> error option \<times> nat list" where
  "chart_columns tints deltas i j data =
     (if j < 256
      then if j < length tints
           then chart_columns tints deltas i (Suc j)
                  (put_pixel ((i * 256 + j) * 4) (chart_pixel (tints ! j) (deltas ! j) i) data)
           else (Some TypeError, data)
      else (None, data))"
  by pat_completeness auto
termination
  by (relation "measure (\<lambda>(ts, ds, i, j, d). 256 - j)") auto

declare chart_columns.simps [simp del]

function chart_rows ::
  "colour list \<Rightarrow> colour list \<Rightarrow> nat \<Rightarrow> nat list \<Rightarrow> error option \<times> nat list" where
  "chart_rows tints deltas i data =
     (if i < 256
      then and_then (chart_columns tints deltas i 0 data) (chart_rows tints deltas (Suc i))
      else (None, data))"
  by pat_completeness auto
termination
  by (relation "measure (\<lambda>(ts, ds, i, d). 256 - i)") auto

declare chart_rows.simps [simp del]

definition renderChart :: "picker \<Rightarrow> error option \<times> picker" where
  "renderChart st =
     (let deltas = map (\<lambda>(r, g, b). (js_div r (Fin 255), js_div g (Fin 255), js_div b (Fin 255)))
                       (current_tints st)
      in case chart_rows (current_tints st) deltas 0 (replicate (256 * 256 * 4) 0) of
           (Some e, data) \<Rightarrow> (Some e, st\<lparr>chart_canvas := []\<rparr>)
         | (None, data) \<Rightarrow> (None, st\<lparr>chart_canvas := data\<rparr>))"

subsection \<open>renderLines\<close>

text \<open>\<^verbatim>\<open>shadeToLuminance(target, ...tint)\<close>: the three components of a tint spread as the
  colour arguments.\<close>

definition shade_of :: "jsnum \<Rightarrow> colour \<Rightarrow> error + jsnum" where
  "shade_of target tint =
     (case tint of (r, g, b) \<Rightarrow> shadeToLuminance (Number target) (Number r) (Number g) (Number b))"

text \<open>The first point of a curve, \<^verbatim>\<open>moveTo(0, (1 - shade) * height)\<close> with the shade of
  \<^verbatim>\<open>current_tints[1]\<close>. Spreading \<^verbatim>\<open>current_tints[1]\<close> when the array has fewer than two
  entries throws a \<^verbatim>\<open>TypeError\<close>.\<close>

definition curve_start ::
  "jsnum \<Rightarrow> colour list \<Rightarrow> nat \<Rightarrow> path_cmd list \<Rightarrow> error option \<times> path_cmd list" where
  "curve_start target tints height path =
     (if length tints \<le> 1 then (Some TypeError, path)
      else case shade_of target (tints ! 1) of
             Inl e \<Rightarrow> (Some e, path)
           | Inr shade \<Rightarrow>
               (None, path @ [MoveTo (Fin 0) (js_mul (js_sub (Fin 1) shade) (Fin (real height)))]))"

text \<open>\<^verbatim>\<open>lineTo(i / (current_tints.length - 1) * width, (1 - shade) * height)\<close>\<close>

definition curve_point :: "colour list \<Rightarrow> nat \<Rightarrow> nat \<Rightarrow> nat \<Rightarrow> jsnum \<Rightarrow> path_cmd" where
  "curve_point tints width height i shade =
     LineTo (js_mul (js_div (Fin (real i)) (Fin (real (length tints) - 1))) (Fin (real width)))
            (js_mul (js_sub (Fin 1) shade) (Fin (real height)))"

text \<open>The loop \<^verbatim>\<open>for (let i = 0; i < current_tints.length; i++)\<close> that draws a curve from
  left to right.\<close>

function curve_right ::
  "jsnum \<Rightarrow> colour list \<Rightarrow> nat \<Rightarrow> nat \<Rightarrow> nat \<Rightarrow> path_cmd list \<Rightarrow> error option \<times> path_cmd list" where
  "curve_right target tints width height i path =
     (if i < length tints
      then case shade_of target (tints ! i) of
             Inl e \<Rightarrow> (Some e, path)
           | Inr shade \<Rightarrow>
               curve_right target tints width height (Suc i)
                 (path @ [curve_point tints width height i shade])
      else (None, path))"
  by pat_completeness auto
termination
  by (relation "measure (\<lambda>(t, ts, w, h, i, p). length ts - i)") auto

declare curve_right.simps [simp del]

text \<open>The loop \<^verbatim>\<open>for (let i = current_tints.length - 1; i >= 0; i--)\<close> that draws a curve
  from right to left; \<open>n\<close> is \<open>i + 1\<close>.\<close>

fun curve_left ::
  "jsnum \<Rightarrow> colour list \<Rightarrow> nat \<Rightarrow> nat \<Rightarrow> nat \<Rightarrow> path_cmd list \<Rightarrow> error option \<times> path_cmd list" where
  "curve_left target tints width height 0 path = (None, path)"
| "curve_left target tints width height (Suc i) path =
     (case shade_of target (tints ! i) of
        Inl e \<Rightarrow> (Some e, path)
      | Inr shade \<Rightarrow>
          curve_left target tints width height i (path @ [curve_point tints width height i shade]))"

definition finish :: "path_cmd list \<Rightarrow> path_cmd list \<Rightarrow> error option \<times> path_cmd list" where
  "finish cmds path = (None, path @ cmds)"

definition render_bw :: "picker \<Rightarrow> error option \<times> path_cmd list" where
  "render_bw st =
     and_then (and_then
       (curve_start (Fin 0.1795) (current_tints st) (line_canvas_height st) [BeginPath])
       (curve_right (Fin 0.1795) (current_tints st) (line_canvas_width st) (line_canvas_height st) 0))
       (finish [Stroke])"

definition render_colour :: "picker \<Rightarrow> error option \<times> path_cmd list" where
  "render_colour st =
     (let tints = current_tints st;
          width = line_canvas_width st;
          height = line_canvas_height st;
          upper = contrast_upper_luminance st;
          lower = contrast_lower_luminance st
      in if js_le upper (Fin 0) \<or> js_ge lower (Fin 1) then (None, [BeginPath])
         else
           and_then (and_then
             (if js_ge upper (Fin 1)
              then (None, [BeginPath, MoveTo (Fin 0) (Fin 0), LineTo (Fin (real width)) (Fin 0)])
              else and_then (curve_start upper tints height [BeginPath])
                            (curve_right upper tints width height 0))
             (if js_le lower (Fin 0)
              then finish [LineTo (Fin (real width)) (Fin (real height)),
                           LineTo (Fin 0) (Fin (real height))]
              else curve_left lower tints width height (length tints)))
             (finish [ClosePath, Fill]))"

definition renderLines :: "picker \<Rightarrow> error option \<times> picker" where
  "renderLines st =
     (case (if line_mode st = ''NONE'' then (None, [])
            else if line_mode st = ''B/W'' then render_bw st
            else if line_mode st = ''COLOUR'' then render_colour st
            else (None, []))
      of (e, path) \<Rightarrow> (e, st\<lparr>line_canvas := path\<rparr>))"

subsection \<open>recalculateContrast\<close>

text \<open>
  \<^verbatim>\<open>parseInt(s, 16)\<close> on a string of 8-bit characters: leading white space is skipped,
  then a sign, then a \<^verbatim>\<open>0x\<close> or \<^verbatim>\<open>0X\<close> prefix; the longest run of hexadecimal digits
  that follows is the value, and NaN when that run is empty.
\<close>

definition is_white_space :: "char \<Rightarrow> bool" where
  "is_white_space c = (of_char c \<in> {9, 10, 11, 12, 13, 32, 160 :: nat})"

definition hex_digit :: "char \<Rightarrow> nat option" where
  "hex_digit c =
     (let n = of_char c :: nat
      in if 48 \<le> n \<and> n \<le> 57 then Some (n - 48)
         else if 65 \<le> n \<and> n \<le> 70 then Some (n - 55)
         else if 97 \<le> n \<and> n \<le> 102 then Some (n - 87)
         else None)"

definition hex_value :: "string \<Rightarrow> nat" where
  "hex_value ds = foldl (\<lambda>acc c. acc * 16 + (case hex_digit c of Some d \<Rightarrow> d | None \<Rightarrow> 0)) 0 ds"

definition parseInt16 :: "string \<Rightarrow> jsnum" where
  "parseInt16 inputString =
     (let s = dropWhile is_white_space inputString;
          sign = (if s \<noteq> [] \<and> hd s = CHR ''-'' then - 1 else 1 :: real);
          s1 = (if s \<noteq> [] \<and> (hd s = CHR ''+'' \<or> hd s = CHR ''-'') then tl s else s);
          s2 = (if take 2 s1 = ''0x'' \<or> take 2 s1 = ''0X'' then drop 2 s1 else s1);
          z = takeWhile (\<lambda>c. hex_digit c \<noteq> None) s2
      in if z = [] then NaN else Fin (sign * real (hex_value z)))"

text \<open>\<^verbatim>\<open>s.slice(a, b)\<close> for the constant bounds \<open>0 \<le> a \<le> b\<close> of the program.\<close>

definition slice :: "nat \<Rightarrow> nat \<Rightarrow> string \<Rightarrow> string" where
  "slice a b s = take (b - a) (drop a s)"

definition colour_byte :: "string \<Rightarrow> nat \<Rightarrow> nat \<Rightarrow> jsnum" where
  "colour_byte v a b = math_max (Fin 0) (math_min (Fin 255) (parseInt16 (slice a b v)))"

definition recalculateContrast :: "picker \<Rightarrow> error option \<times> picker" where
  "recalculateContrast st =
     (let r = colour_byte (contrast_colour_input_value st) 1 3;
          g = colour_byte (contrast_colour_input_value st) 3 5;
          b = colour_byte (contrast_colour_input_value st) 5 7
      in if r = NaN \<or> g = NaN \<or> b = NaN then (None, st)
         else
           (case calcLuminance (Number (js_div r (Fin 255))) (Number (js_div g (Fin 255)))
                               (Number (js_div b (Fin 255))) of
              Inl e \<Rightarrow> (Some e, st)
            | Inr colour_luminance \<Rightarrow>
                renderLines
                  (st\<lparr>contrast_upper_luminance :=
                        js_mul (Fin 0.05)
                          (js_sub (js_add (js_mul (js_mul (Fin 20) colour_luminance) (contrast_ratio st))
                                          (contrast_ratio st))
                                  (Fin 1)),
                      contrast_lower_luminance :=
                        js_div (js_add (js_sub colour_luminance (js_mul (Fin 0.05) (contrast_ratio st)))
                                       (Fin 0.05))
                               (contrast_ratio st)\<rparr>)))"

section \<open>Notions used to state the properties\<close>

text \<open>A pure hue, as \<open>interpolateTints\<close> documents and checks it: every component in the
  unit interval, one of them 1 and one of them 0. A pure tint, as \<open>shadeToLuminance\<close>
  checks it: every component in the unit interval and one of them 1.\<close>

definition is_pure_hue :: "real \<Rightarrow> real \<Rightarrow> real \<Rightarrow> bool" where
  "is_pure_hue r g b =
     (0 \<le> r \<and> r \<le> 1 \<and> 0 \<le> g \<and> g \<le> 1 \<and> 0 \<le> b \<and> b \<le> 1
      \<and> (r = 1 \<or> g = 1 \<or> b = 1) \<and> (r = 0 \<or> g = 0 \<or> b = 0))"

definition is_pure_tint :: "real \<Rightarrow> real \<Rightarrow> real \<Rightarrow> bool" where
  "is_pure_tint r g b =
     (0 \<le> r \<and> r \<le> 1 \<and> 0 \<le> g \<and> g \<le> 1 \<and> 0 \<le> b \<and> b \<le> 1 \<and> (r = 1 \<or> g = 1 \<or> b = 1))"

text \<open>The value of a channel of entry \<open>i\<close> of the tint sequence of the spec, \<open>max(c, 1 - (1 - c) / 255 * i)\<close>.\<close>

definition tint_channel :: "real \<Rightarrow> nat \<Rightarrow> real" where
  "tint_channel c i = max c (1 - (1 - c) / 255 * real i)"

text \<open>The values that \<open>linearize\<close>, \<open>calcLuminance\<close> and \<open>shadeToLuminance\<close> compute on finite
  arguments that pass their guards (lemmas \<open>linearize_Fin\<close>, \<open>calcLuminance_Fin\<close> and
  \<open>shadeToLuminance_Fin\<close>).\<close>

definition lin :: "real \<Rightarrow> real" where
  "lin c = (if c \<le> 0.03928 then c / 12.92 else ((c + 0.055) / 1.055) powr 2.4)"

definition lum :: "real \<Rightarrow> real \<Rightarrow> real \<Rightarrow> real" where
  "lum r g b = 0.2126 * lin r + 0.7152 * lin g + 0.0722 * lin b"

definition inv_gamma :: "real \<Rightarrow> real" where
  "inv_gamma s = (if s < 0.03928 / 12.92 then s * 12.92 else s powr (1 / 2.4) * 1.055 - 0.055)"

text \<open>Entry \<open>i\<close> of the array that \<open>interpolateTints\<close> returned: none when it threw, or
  when \<open>i\<close> is beyond the end.\<close>

definition tint_at :: "error + colour list \<Rightarrow> nat \<Rightarrow> colour option" where
  "tint_at res i =
     (case res of Inl e \<Rightarrow> None | Inr ts \<Rightarrow> if i < length ts then Some (ts ! i) else None)"

text \<open>Channel by channel, \<open>c\<close> is at most \<open>d\<close>.\<close>

definition colour_le :: "colour \<Rightarrow> colour \<Rightarrow> bool" where
  "colour_le c d =
     (case (c, d) of ((r, g, b), (r', g', b')) \<Rightarrow> js_le r r' \<and> js_le g g' \<and> js_le b b')"

text \<open>The state when the handler has run its declarations: the initial values of its
  variables, for a page whose reference-colour field holds \<open>v\<close> and whose line canvas is
  \<open>w\<close> by \<open>h\<close>.\<close>

definition initial :: "string \<Rightarrow> nat \<Rightarrow> nat \<Rightarrow> picker" where
  "initial v w h =
     \<lparr>current_hue = (Fin 0, Fin 1, Fin 1),
      current_tints =
        (case interpolateTints (Number (Fin 0)) (Number (Fin 1)) (Number (Fin 1)) of
           Inr ts \<Rightarrow> ts | Inl e \<Rightarrow> []),
      current_colour = (Fin 1, Fin 1, Fin 1),
      current_luminance = Fin 1,
      line_mode = ''NONE'',
      position_left = Fin 1,
      position_bottom = Fin 0,
      contrast_ratio = Fin 4.5,
      contrast_upper_luminance = Fin 1,
      contrast_lower_luminance = Fin 0,
      contrast_colour_input_value = v,
      line_canvas_width = w,
      line_canvas_height = h,
      line_canvas = [],
      chart_canvas = [],
      indicator_border = ''black''\<rparr>"

text \<open>The points of a path, in the order of the calls that added them.\<close>

fun path_points :: "path_cmd list \<Rightarrow> (jsnum \<times> jsnum) list" where
  "path_points [] = []"
| "path_points (MoveTo x y # cs) = (x, y) # path_points cs"
| "path_points (LineTo x y # cs) = (x, y) # path_points cs"
| "path_points (c # cs) = path_points cs"

text \<open>The polyline of the black/white legibility mode in the words of the spec: for each
  tint column \<open>j\<close> from 0 to 255 the point \<open>(j / 255 * width, (1 - shade) * height)\<close>, where
  \<open>shade\<close> is the shade of luminance 0.1795 at tint \<open>j\<close>.\<close>

definition legibility_point :: "colour list \<Rightarrow> nat \<Rightarrow> nat \<Rightarrow> nat \<Rightarrow> jsnum \<times> jsnum" where
  "legibility_point tints width height j =
     (js_mul (js_div (Fin (real j)) (Fin 255)) (Fin (real width)),
      js_mul (js_sub (Fin 1) (case shade_of (Fin 0.1795) (tints ! j) of Inr s \<Rightarrow> s | Inl e \<Rightarrow> NaN))
             (Fin (real height)))"

definition legibility_polyline :: "colour list \<Rightarrow> nat \<Rightarrow> nat \<Rightarrow> (jsnum \<times> jsnum) list" where
  "legibility_polyline tints width height = map (legibility_point tints width height) [0..<256]"

text \<open>The tint sequence of a pure hue with finite components, which is what
  \<open>interpolateTints\<close> returns for it (lemma \<open>interpolateTints_pure_hue\<close>).\<close>

definition hue_tints :: "real \<Rightarrow> real \<Rightarrow> real \<Rightarrow> colour list" where
  "hue_tints r g b =
     map (\<lambda>i. (Fin (tint_channel r i), Fin (tint_channel g i), Fin (tint_channel b i))) [0..<256]"

text \<open>A list of colours with finite components, as an array of tints.\<close>

definition finite_tints :: "(real \<times> real \<times> real) list \<Rightarrow> colour list" where
  "finite_tints rs = map (\<lambda>(r, g, b). (Fin r, Fin g, Fin b)) rs"

text \<open>The byte that \<open>renderChart\<close> stores for channel \<open>c\<close> (0 red, 1 green, 2 blue,
  3 alpha) of the pixel in row \<open>i\<close> and column \<open>j\<close>.\<close>

definition chart_byte :: "colour list \<Rightarrow> colour list \<Rightarrow> nat \<Rightarrow> nat \<Rightarrow> nat \<Rightarrow> nat" where
  "chart_byte tints deltas i j c =
     (case chart_pixel (tints ! j) (deltas ! j) i of (r, g, b) \<Rightarrow>
        if c = 0 then to_uint8_clamp (js_mul r (Fin 255))
        else if c = 1 then to_uint8_clamp (js_mul g (Fin 255))
        else if c = 2 then to_uint8_clamp (js_mul b (Fin 255))
        else 255)"

text \<open>An argument that is a number of the unit interval; one that is exactly 1; one that
  is exactly 0.\<close>

definition in_unit :: "jsval \<Rightarrow> bool" where
  "in_unit v = (case v of Number (Fin c) \<Rightarrow> 0 \<le> c \<and> c \<le> 1 | _ \<Rightarrow> False)"

definition is_one :: "jsval \<Rightarrow> bool" where
  "is_one v = (v = Number (Fin 1))"

definition is_zero :: "jsval \<Rightarrow> bool" where
  "is_zero v = (v = Number (Fin 0))"

section \<open>Finite numbers\<close>

lemma js_gt_Fin [simp]: "js_gt (Fin x) (Fin y) = (y < x)"
  by (simp add: js_gt_def)

lemma js_seq_Fin [simp]: "js_seq (Fin x) (Fin y) = (x = y)"
  by simp

lemma js_sne_Fin [simp]: "js_sne (Fin x) (Fin y) = (x \<noteq> y)"
  by (simp add: js_sne_def)

lemma js_le_Fin [simp]: "js_le (Fin x) (Fin y) = (x \<le> y)"
  by (auto simp add: js_le_def)

lemma js_ge_Fin [simp]: "js_ge (Fin x) (Fin y) = (y \<le> x)"
  by (simp add: js_ge_def)

lemma js_sub_Fin [simp]: "js_sub (Fin x) (Fin y) = Fin (x - y)"
  by (simp add: js_sub_def)

lemma math_max_Fin [simp]: "math_max (Fin x) (Fin y) = Fin (max x y)"
  by (simp add: math_max_def max_def)

lemma math_min_Fin [simp]: "math_min (Fin x) (Fin y) = Fin (min x y)"
  by (auto simp add: math_min_def min_def)

lemma js_div_Fin [simp]: "y \<noteq> 0 \<Longrightarrow> js_div (Fin x) (Fin y) = Fin (x / y)"
  by simp

lemma math_pow_Fin [simp]: "0 < x \<Longrightarrow> y \<noteq> 0 \<Longrightarrow> math_pow (Fin x) (Fin y) = Fin (x powr y)"
  by simp

section \<open>interpolateTints\<close>

lemma tint_loop_eq:
  "i \<le> 256 \<Longrightarrow>
   tint_loop r g b dr dg db i acc = acc @ map (tint_entry r g b dr dg db) [i..<256]"
proof (induction r g b dr dg db i acc rule: tint_loop.induct)
  case (1 r g b dr dg db i acc)
  show ?case
  proof (cases "i < 256")
    case True
    then have "[i..<256] = i # [Suc i..<256]" by (simp add: upt_conv_Cons)
    with True 1 show ?thesis by (subst tint_loop.simps) simp
  next
    case False
    with 1 have "i = 256" by simp
    then show ?thesis by (subst tint_loop.simps) simp
  qed
qed

lemma tint_entry_Fin:
  "tint_entry (Fin r) (Fin g) (Fin b) (Fin ((1 - r) / 255)) (Fin ((1 - g) / 255)) (Fin ((1 - b) / 255)) i
   = (Fin (tint_channel r i), Fin (tint_channel g i), Fin (tint_channel b i))"
  by (simp add: tint_entry_def tint_channel_def)

lemma interpolateTints_pure_hue:
  assumes "is_pure_hue r g b"
  shows "interpolateTints (Number (Fin r)) (Number (Fin g)) (Number (Fin b))
         = Inr (map (\<lambda>i. (Fin (tint_channel r i), Fin (tint_channel g i), Fin (tint_channel b i))) [0..<256])"
  using assms
  by (auto simp add: interpolateTints_def is_pure_hue_def tint_loop_eq tint_entry_Fin Let_def)

lemma interpolateTints_Fin_error_iff:
  "(\<exists>e. interpolateTints (Number (Fin r)) (Number (Fin g)) (Number (Fin b)) = Inl e)
   \<longleftrightarrow> \<not> is_pure_hue r g b"
  by (auto simp add: interpolateTints_def is_pure_hue_def Let_def)

lemma tint_channel_zero: "c \<le> 1 \<Longrightarrow> tint_channel c 0 = 1"
  by (simp add: tint_channel_def)

lemma tint_channel_last: "tint_channel c 255 = c"
proof -
  have "1 - (1 - c) / 255 * real (255::nat) = c" by (simp add: field_simps)
  then show ?thesis unfolding tint_channel_def by (simp only: max.idem)
qed

lemma tint_channel_one: "tint_channel 1 i = 1"
  by (simp add: tint_channel_def)

lemma tint_channel_antimono:
  assumes "c \<le> 1" "i \<le> j"
  shows "tint_channel c j \<le> tint_channel c i"
proof -
  have "(1 - c) / 255 * real i \<le> (1 - c) / 255 * real j"
    using assms by (intro mult_left_mono) simp_all
  then show ?thesis by (simp add: tint_channel_def max_def)
qed

lemma tint_channel_bounds:
  assumes "0 \<le> c" "c \<le> 1" "i \<le> 255"
  shows "0 \<le> tint_channel c i" "tint_channel c i \<le> 1"
proof -
  show "0 \<le> tint_channel c i" using assms by (simp add: tint_channel_def max_def)
  have "0 \<le> (1 - c) / 255 * real i" using assms by simp
  then show "tint_channel c i \<le> 1" using assms by (simp add: tint_channel_def)
qed

lemma tint_channel_ge: "c \<le> tint_channel c i"
  by (simp add: tint_channel_def)

text \<open>
  Claim C1, as the code has it. For every pure hue \<open>(r, g, b)\<close>, \<open>interpolateTints\<close> returns
  256 entries; entry 0 is white \<open>(1, 1, 1)\<close>; every channel is non-increasing as the index
  grows and never falls below the hue's component; and in entry 255 a channel whose hue
  component is 0 or 1 has exactly that value. The sequence runs from white to the hue,
  as the function's comment says ("between pure white and the specified hue") and as
  \<open>recalculateColour\<close> uses it (\<open>position_left = 0\<close> is white). For a hue component
  strictly between 0 and 1 the statement gives the last entry as a value at least the
  component, and no equality: the program computes \<open>1 - (1 - c) / 255 * 255\<close> in
  doubles, which can round to a value just above \<open>c\<close>.
\<close>

theorem interpolateTints_sequence:
  assumes "is_pure_hue r g b"
  shows "\<exists>ts. interpolateTints (Number (Fin r)) (Number (Fin g)) (Number (Fin b)) = Inr ts
           \<and> length ts = 256
           \<and> ts ! 0 = (Fin 1, Fin 1, Fin 1)
           \<and> (\<forall>i j. i \<le> j \<and> j \<le> 255 \<longrightarrow> colour_le (ts ! j) (ts ! i))
           \<and> (\<forall>i. i \<le> 255 \<longrightarrow> colour_le (Fin r, Fin g, Fin b) (ts ! i))
           \<and> (r = 0 \<or> r = 1 \<longrightarrow> fst (ts ! 255) = Fin r)
           \<and> (g = 0 \<or> g = 1 \<longrightarrow> fst (snd (ts ! 255)) = Fin g)
           \<and> (b = 0 \<or> b = 1 \<longrightarrow> snd (snd (ts ! 255)) = Fin b)"
proof -
  let ?ts = "map (\<lambda>i. (Fin (tint_channel r i), Fin (tint_channel g i), Fin (tint_channel b i))) [0..<256]"
  from assms have le: "r \<le> 1" "g \<le> 1" "b \<le> 1" by (simp_all add: is_pure_hue_def)
  have "interpolateTints (Number (Fin r)) (Number (Fin g)) (Number (Fin b)) = Inr ?ts"
    using assms by (rule interpolateTints_pure_hue)
  moreover have "length ?ts = 256" by simp
  moreover have "?ts ! 0 = (Fin 1, Fin 1, Fin 1)" using le by (simp add: tint_channel_zero)
  moreover have "\<forall>i j. i \<le> j \<and> j \<le> 255 \<longrightarrow> colour_le (?ts ! j) (?ts ! i)"
    using le by (simp add: colour_le_def tint_channel_antimono)
  moreover have "\<forall>i. i \<le> 255 \<longrightarrow> colour_le (Fin r, Fin g, Fin b) (?ts ! i)"
    by (simp add: colour_le_def tint_channel_ge)
  moreover have "fst (?ts ! 255) = Fin r" "fst (snd (?ts ! 255)) = Fin g"
    "snd (snd (?ts ! 255)) = Fin b"
    by (simp_all add: tint_channel_last)
  ultimately show ?thesis by blast
qed

theorem interpolateTints_sequence_witness:
  "is_pure_hue 1 (1 / 51) 0
   \<and> (\<exists>ts. interpolateTints (Number (Fin 1)) (Number (Fin (1 / 51))) (Number (Fin 0)) = Inr ts
           \<and> length ts = 256
           \<and> ts ! 0 = (Fin 1, Fin 1, Fin 1)
           \<and> (\<forall>i j. i \<le> j \<and> j \<le> 255 \<longrightarrow> colour_le (ts ! j) (ts ! i))
           \<and> (\<forall>i. i \<le> 255 \<longrightarrow> colour_le (Fin 1, Fin (1 / 51), Fin 0) (ts ! i))
           \<and> fst (ts ! 255) = Fin 1
           \<and> snd (snd (ts ! 255)) = Fin 0)"
  using interpolateTints_sequence [of 1 "1 / 51" 0] by (simp add: is_pure_hue_def)

text \<open>
  Claim C1 as stated (entry 0 is the hue, entry 255 is white) fails at pure red: entry 0
  is white and entry 255 is red.
\<close>

theorem interpolateTints_red_counterexample:
  "tint_at (interpolateTints (Number (Fin 1)) (Number (Fin 0)) (Number (Fin 0))) 0
     = Some (Fin 1, Fin 1, Fin 1)
   \<and> tint_at (interpolateTints (Number (Fin 1)) (Number (Fin 0)) (Number (Fin 0))) 0
     \<noteq> Some (Fin 1, Fin 0, Fin 0)
   \<and> tint_at (interpolateTints (Number (Fin 1)) (Number (Fin 0)) (Number (Fin 0))) 255
     = Some (Fin 1, Fin 0, Fin 0)
   \<and> tint_at (interpolateTints (Number (Fin 1)) (Number (Fin 0)) (Number (Fin 0))) 255
     \<noteq> Some (Fin 1, Fin 1, Fin 1)"
proof -
  have "is_pure_hue 1 0 0" by (simp add: is_pure_hue_def)
  then show ?thesis
    by (simp add: interpolateTints_pure_hue tint_at_def tint_channel_def)
qed

text \<open>
  Claim C2. For every pure hue and every index \<open>i\<close> from 0 to 255, each channel of entry
  \<open>i\<close> is \<open>max(c, 1 - (1 - c) / 255 * i)\<close> for the hue component \<open>c\<close>, so a channel whose
  hue component is 1 is 1 at every index.
\<close>

theorem interpolateTints_entry:
  assumes "is_pure_hue r g b" and "i \<le> 255"
  shows "\<exists>ts. interpolateTints (Number (Fin r)) (Number (Fin g)) (Number (Fin b)) = Inr ts
           \<and> ts ! i = (Fin (max r (1 - (1 - r) / 255 * real i)),
                       Fin (max g (1 - (1 - g) / 255 * real i)),
                       Fin (max b (1 - (1 - b) / 255 * real i)))
           \<and> (r = 1 \<longrightarrow> fst (ts ! i) = Fin 1)
           \<and> (g = 1 \<longrightarrow> fst (snd (ts ! i)) = Fin 1)
           \<and> (b = 1 \<longrightarrow> snd (snd (ts ! i)) = Fin 1)"
  using assms by (simp add: interpolateTints_pure_hue tint_channel_def)

theorem interpolateTints_entry_witness:
  "is_pure_hue 1 0 (1 / 5) \<and> (3::nat) \<le> 255
   \<and> (\<exists>ts. interpolateTints (Number (Fin 1)) (Number (Fin 0)) (Number (Fin (1 / 5))) = Inr ts
           \<and> ts ! 3 = (Fin 1, Fin (84 / 85), Fin (421 / 425)))"
  using interpolateTints_entry [of 1 0 "1 / 5" 3] by (auto simp add: is_pure_hue_def)

section \<open>linearize, calcLuminance and shadeToLuminance\<close>

lemma linearize_Fin:
  "0 \<le> c \<Longrightarrow> c \<le> 1 \<Longrightarrow> linearize (Number (Fin c)) = Inr (Fin (lin c))"
  by (simp add: linearize_def lin_def)

lemma lin_nonneg: "0 \<le> c \<Longrightarrow> 0 \<le> lin c"
  by (simp add: lin_def)

lemma lin_le_one: assumes "0 \<le> c" "c \<le> 1" shows "lin c \<le> 1"
proof (cases "c \<le> 0.03928")
  case True
  then show ?thesis by (simp add: lin_def)
next
  case False
  have "\<bar>(c + 0.055) / 1.055\<bar> \<le> 1" using assms by simp
  then have "((c + 0.055) / 1.055) powr 2.4 \<le> 1" by (intro powr_le1) simp_all
  with False show ?thesis by (simp add: lin_def)
qed

lemma lin_one: "lin 1 = 1"
  by (simp add: lin_def)

lemma lin_zero: "lin 0 = 0"
  by (simp add: lin_def)

lemma lin_less_one: assumes "0 \<le> c" "c < 1" shows "lin c < 1"
proof (cases "c \<le> 0.03928")
  case True
  then show ?thesis by (simp add: lin_def)
next
  case False
  have "((c + 0.055) / 1.055) powr 2.4 < 1 powr 2.4"
    using assms by (intro powr_less_mono2) simp_all
  with False show ?thesis by (simp add: lin_def)
qed

lemma calcLuminance_Fin:
  assumes "0 \<le> r" "r \<le> 1" "0 \<le> g" "g \<le> 1" "0 \<le> b" "b \<le> 1"
  shows "calcLuminance (Number (Fin r)) (Number (Fin g)) (Number (Fin b)) = Inr (Fin (lum r g b))"
  using assms by (simp add: calcLuminance_def linearize_Fin lum_def)

lemma lum_nonneg: "0 \<le> r \<Longrightarrow> 0 \<le> g \<Longrightarrow> 0 \<le> b \<Longrightarrow> 0 \<le> lum r g b"
  by (simp add: lum_def lin_nonneg)

lemma lum_le_one:
  assumes "0 \<le> r" "r \<le> 1" "0 \<le> g" "g \<le> 1" "0 \<le> b" "b \<le> 1"
  shows "lum r g b \<le> 1"
proof -
  have "lin r \<le> 1" "lin g \<le> 1" "lin b \<le> 1" using assms by (simp_all add: lin_le_one)
  then show ?thesis by (simp add: lum_def)
qed

lemma lum_pos:
  assumes "0 \<le> r" "0 \<le> g" "0 \<le> b" "r = 1 \<or> g = 1 \<or> b = 1"
  shows "0.0722 \<le> lum r g b"
proof -
  have "0 \<le> lin r" "0 \<le> lin g" "0 \<le> lin b" using assms by (simp_all add: lin_nonneg)
  moreover have "lin r = 1 \<or> lin g = 1 \<or> lin b = 1" using assms(4) lin_one by auto
  ultimately show ?thesis by (auto simp add: lum_def)
qed

lemma lum_white: "lum 1 1 1 = 1"
  by (simp add: lum_def lin_one)

lemma shadeToLuminance_Fin:
  assumes "is_pure_tint r g b" "0 \<le> t" "t \<le> 1"
  shows "shadeToLuminance (Number (Fin t)) (Number (Fin r)) (Number (Fin g)) (Number (Fin b))
         = Inr (Fin (inv_gamma (t / lum r g b)))"
proof -
  from assms(1) have rng: "0 \<le> r" "r \<le> 1" "0 \<le> g" "g \<le> 1" "0 \<le> b" "b \<le> 1"
    and one: "r = 1 \<or> g = 1 \<or> b = 1" by (simp_all add: is_pure_tint_def)
  have pos: "0 < lum r g b" using lum_pos [OF rng(1,3,5) one] by simp
  have cl: "calcLuminance (Number (Fin r)) (Number (Fin g)) (Number (Fin b)) = Inr (Fin (lum r g b))"
    using rng by (rule calcLuminance_Fin)
  show ?thesis
  proof (cases "t / lum r g b < 0.03928 / 12.92")
    case True
    with rng one assms(2,3) pos cl show ?thesis
      by (auto simp add: shadeToLuminance_def inv_gamma_def Let_def)
  next
    case False
    have "(0::real) < 0.03928 / 12.92" by simp
    with False have "0 < t / lum r g b" by linarith
    with False rng one assms(2,3) pos cl show ?thesis
      by (auto simp add: shadeToLuminance_def inv_gamma_def Let_def)
  qed
qed

lemma inv_gamma_strict:
  assumes "0.03928 / 12.92 \<le> s" "s < s'"
  shows "inv_gamma s < inv_gamma s'"
proof -
  have "(0::real) \<le> 0.03928 / 12.92" by simp
  with assms(1) have "0 \<le> s" by linarith
  then have "s powr (1 / 2.4) < s' powr (1 / 2.4)"
    using assms(2) by (intro powr_less_mono2) simp_all
  moreover have "\<not> s < 0.03928 / 12.92" "\<not> s' < 0.03928 / 12.92" using assms by linarith+
  ultimately show ?thesis by (simp add: inv_gamma_def)
qed

text \<open>
  Claim C6. Round trip: for every pure tint, the shade that gives the tint its own
  luminance is 1 (in the exact arithmetic of the embedding).
\<close>

theorem shade_round_trip:
  assumes "is_pure_tint r g b"
  shows "\<exists>l. calcLuminance (Number (Fin r)) (Number (Fin g)) (Number (Fin b)) = Inr l
           \<and> shadeToLuminance (Number l) (Number (Fin r)) (Number (Fin g)) (Number (Fin b)) = Inr (Fin 1)"
proof -
  from assms have rng: "0 \<le> r" "r \<le> 1" "0 \<le> g" "g \<le> 1" "0 \<le> b" "b \<le> 1"
    and one: "r = 1 \<or> g = 1 \<or> b = 1" by (simp_all add: is_pure_tint_def)
  have pos: "0 < lum r g b" using lum_pos [OF rng(1,3,5) one] by simp
  have le: "lum r g b \<le> 1" using rng by (rule lum_le_one)
  have "shadeToLuminance (Number (Fin (lum r g b))) (Number (Fin r)) (Number (Fin g)) (Number (Fin b))
        = Inr (Fin (inv_gamma (lum r g b / lum r g b)))"
    using assms pos le by (intro shadeToLuminance_Fin) simp_all
  moreover have "inv_gamma (lum r g b / lum r g b) = 1" using pos by (simp add: inv_gamma_def)
  ultimately show ?thesis using calcLuminance_Fin [OF rng] by simp
qed

theorem shade_round_trip_witness:
  "is_pure_tint 1 1 1
   \<and> (\<exists>l. calcLuminance (Number (Fin 1)) (Number (Fin 1)) (Number (Fin 1)) = Inr l
           \<and> shadeToLuminance (Number l) (Number (Fin 1)) (Number (Fin 1)) (Number (Fin 1)) = Inr (Fin 1))"
  using shade_round_trip [of 1 1 1] by (simp add: is_pure_tint_def)

section \<open>What the guards reject\<close>

text \<open>
  Each guard rejects an argument exactly when it is not a number, or is a number below 0
  or above 1 (an infinity included). NaN is a number for which both comparisons are
  false: it passes.
\<close>

lemma range_guard_throws_iff:
  "(\<exists>e. range_guard name v = Inl e) \<longleftrightarrow> \<not> in_unit v \<and> v \<noteq> Number NaN"
proof (cases v)
  case NotNumber
  then show ?thesis by (simp add: in_unit_def)
next
  case (Number x)
  then show ?thesis by (cases x) (auto simp add: in_unit_def js_gt_def)
qed

lemma range_guard_cases:
  "range_guard name v = Inl (Error (range_message name)) \<or> range_guard name v = Inr NaN
   \<or> (\<exists>c. 0 \<le> c \<and> c \<le> 1 \<and> range_guard name v = Inr (Fin c))"
proof (cases v)
  case NotNumber
  then show ?thesis by simp
next
  case (Number x)
  then show ?thesis by (cases x) (auto simp add: js_gt_def)
qed

lemma linearize_NaN: "linearize (Number NaN) = Inr NaN"
  by (simp add: linearize_def js_gt_def js_le_def)

lemma linearize_throws_iff:
  "(\<exists>e. linearize v = Inl e) \<longleftrightarrow> \<not> in_unit v \<and> v \<noteq> Number NaN"
proof -
  have "(\<exists>e. linearize v = Inl e) \<longleftrightarrow> (\<exists>e. range_guard ''colourValue'' v = Inl e)"
    by (auto simp add: linearize_def split: sum.splits)
  then show ?thesis by (simp add: range_guard_throws_iff)
qed

lemma linearize_after_guard:
  "range_guard name v = Inr x \<Longrightarrow> \<exists>y. linearize (Number x) = Inr y"
  using range_guard_cases [of name v]
  by (auto simp add: linearize_NaN linearize_Fin)

lemma calcLuminance_throws_iff:
  "(\<exists>e. calcLuminance r g b = Inl e)
   \<longleftrightarrow> (\<not> in_unit r \<and> r \<noteq> Number NaN) \<or> (\<not> in_unit g \<and> g \<noteq> Number NaN)
       \<or> (\<not> in_unit b \<and> b \<noteq> Number NaN)"
proof -
  have "(\<exists>e. calcLuminance r g b = Inl e)
        \<longleftrightarrow> (\<exists>e. range_guard ''red'' r = Inl e) \<or> (\<exists>e. range_guard ''green'' g = Inl e)
            \<or> (\<exists>e. range_guard ''blue'' b = Inl e)"
    using linearize_after_guard [of "''red''" r] linearize_after_guard [of "''green''" g]
      linearize_after_guard [of "''blue''" b]
    by (auto simp add: calcLuminance_def split: sum.splits)
  then show ?thesis by (simp add: range_guard_throws_iff)
qed

lemma range_guard_passed:
  assumes "range_guard name v = Inr x"
  shows "v = Number x" "range_guard name' (Number x) = Inr x"
  using assms by (cases v; auto split: if_splits)+

lemma calcLuminance_after_guard:
  assumes "range_guard n1 r = Inr x" "range_guard n2 g = Inr y" "range_guard n3 b = Inr z"
  shows "\<exists>l. calcLuminance (Number x) (Number y) (Number z) = Inr l"
proof -
  from linearize_after_guard [OF assms(1)] obtain lx where lx: "linearize (Number x) = Inr lx" ..
  from linearize_after_guard [OF assms(2)] obtain ly where ly: "linearize (Number y) = Inr ly" ..
  from linearize_after_guard [OF assms(3)] obtain lz where lz: "linearize (Number z) = Inr lz" ..
  show ?thesis
    by (simp add: calcLuminance_def
      range_guard_passed(2) [OF assms(1)] range_guard_passed(2) [OF assms(2)]
      range_guard_passed(2) [OF assms(3)] lx ly lz del: range_guard.simps)
qed

lemma is_one_Number: "is_one (Number x) \<longleftrightarrow> js_seq x (Fin 1)"
  by (cases x) (auto simp add: is_one_def)

lemma is_zero_Number: "is_zero (Number x) \<longleftrightarrow> js_seq x (Fin 0)"
  by (cases x) (auto simp add: is_zero_def)

lemma shadeToLuminance_throws_iff:
  "(\<exists>e. shadeToLuminance t r g b = Inl e)
   \<longleftrightarrow> (\<not> in_unit t \<and> t \<noteq> Number NaN) \<or> (\<not> in_unit r \<and> r \<noteq> Number NaN)
       \<or> (\<not> in_unit g \<and> g \<noteq> Number NaN) \<or> (\<not> in_unit b \<and> b \<noteq> Number NaN)
       \<or> \<not> (is_one r \<or> is_one g \<or> is_one b)"
proof (cases "(\<exists>e. range_guard ''targetLuminance'' t = Inl e) \<or> (\<exists>e. range_guard ''red'' r = Inl e)
      \<or> (\<exists>e. range_guard ''green'' g = Inl e) \<or> (\<exists>e. range_guard ''blue'' b = Inl e)")
  case True
  then have "\<exists>e. shadeToLuminance t r g b = Inl e"
    by (auto simp add: shadeToLuminance_def split: sum.splits)
  with True show ?thesis by (auto simp add: range_guard_throws_iff)
next
  case False
  then obtain t' r' g' b' where
    gd: "range_guard ''targetLuminance'' t = Inr t'" "range_guard ''red'' r = Inr r'"
      "range_guard ''green'' g = Inr g'" "range_guard ''blue'' b = Inr b'"
    by (metis sum.exhaust)
  then have vs: "r = Number r'" "g = Number g'" "b = Number b'"
    by (simp_all add: range_guard_passed(1))
  from calcLuminance_after_guard [OF gd(2-4)]
  obtain l where l: "calcLuminance (Number r') (Number g') (Number b') = Inr l" by blast
  have ones: "is_one r \<longleftrightarrow> js_seq r' (Fin 1)" "is_one g \<longleftrightarrow> js_seq g' (Fin 1)"
    "is_one b \<longleftrightarrow> js_seq b' (Fin 1)"
    unfolding vs by (simp_all add: is_one_Number)
  have run: "(\<exists>e. shadeToLuminance t r g b = Inl e)
        \<longleftrightarrow> js_sne r' (Fin 1) \<and> js_sne g' (Fin 1) \<and> js_sne b' (Fin 1)"
    unfolding shadeToLuminance_def gd sum.case l Let_def by simp
  from False have ok: "\<not> (\<not> in_unit t \<and> t \<noteq> Number NaN)" "\<not> (\<not> in_unit r \<and> r \<noteq> Number NaN)"
    "\<not> (\<not> in_unit g \<and> g \<noteq> Number NaN)" "\<not> (\<not> in_unit b \<and> b \<noteq> Number NaN)"
    by (simp_all add: range_guard_throws_iff)
  show ?thesis
    unfolding run ones js_sne_def using ok by blast
qed

lemma interpolateTints_throws_iff:
  "(\<exists>e. interpolateTints r g b = Inl e)
   \<longleftrightarrow> (\<not> in_unit r \<and> r \<noteq> Number NaN) \<or> (\<not> in_unit g \<and> g \<noteq> Number NaN)
       \<or> (\<not> in_unit b \<and> b \<noteq> Number NaN)
       \<or> \<not> (is_zero r \<or> is_zero g \<or> is_zero b) \<or> \<not> (is_one r \<or> is_one g \<or> is_one b)"
proof (cases "(\<exists>e. range_guard ''red'' r = Inl e)
      \<or> (\<exists>e. range_guard ''green'' g = Inl e) \<or> (\<exists>e. range_guard ''blue'' b = Inl e)")
  case True
  then have "\<exists>e. interpolateTints r g b = Inl e"
    by (auto simp add: interpolateTints_def split: sum.splits)
  with True show ?thesis by (auto simp add: range_guard_throws_iff)
next
  case False
  then obtain r' g' b' where
    gd: "range_guard ''red'' r = Inr r'" "range_guard ''green'' g = Inr g'"
      "range_guard ''blue'' b = Inr b'"
    by (metis sum.exhaust)
  then have vs: "r = Number r'" "g = Number g'" "b = Number b'"
    by (simp_all add: range_guard_passed(1))
  have ones: "is_one r \<longleftrightarrow> js_seq r' (Fin 1)" "is_one g \<longleftrightarrow> js_seq g' (Fin 1)"
    "is_one b \<longleftrightarrow> js_seq b' (Fin 1)"
    unfolding vs by (simp_all add: is_one_Number)
  have zeros: "is_zero r \<longleftrightarrow> js_seq r' (Fin 0)" "is_zero g \<longleftrightarrow> js_seq g' (Fin 0)"
    "is_zero b \<longleftrightarrow> js_seq b' (Fin 0)"
    unfolding vs by (simp_all add: is_zero_Number)
  have run: "(\<exists>e. interpolateTints r g b = Inl e)
        \<longleftrightarrow> (js_sne r' (Fin 0) \<and> js_sne g' (Fin 0) \<and> js_sne b' (Fin 0))
            \<or> (js_seq r' (Fin 1) \<and> js_seq g' (Fin 1) \<and> js_seq b' (Fin 1))
            \<or> (js_sne r' (Fin 1) \<and> js_sne g' (Fin 1) \<and> js_sne b' (Fin 1))"
    unfolding interpolateTints_def gd sum.case Let_def by simp
  have excl: "\<not> (js_seq x (Fin 1) \<and> js_seq x (Fin 0))" for x
    by (cases x) simp_all
  from False have ok: "\<not> (\<not> in_unit r \<and> r \<noteq> Number NaN)" "\<not> (\<not> in_unit g \<and> g \<noteq> Number NaN)"
    "\<not> (\<not> in_unit b \<and> b \<noteq> Number NaN)"
    by (simp_all add: range_guard_throws_iff)
  show ?thesis
    unfolding run ones zeros js_sne_def using ok excl [of r'] excl [of g'] excl [of b'] by blast
qed

text \<open>A shade above 1 is returned, not rejected: white's luminance is out of reach of
  pure blue.\<close>

lemma lum_blue: "lum 0 0 1 = 0.0722"
  by (simp add: lum_def lin_zero lin_one)

lemma shade_above_one:
  "\<exists>s. shadeToLuminance (Number (Fin 1)) (Number (Fin 0)) (Number (Fin 0)) (Number (Fin 1)) = Inr (Fin s)
       \<and> 1 < s"
proof -
  have t: "is_pure_tint 0 0 1" by (simp add: is_pure_tint_def)
  have run: "shadeToLuminance (Number (Fin 1)) (Number (Fin 0)) (Number (Fin 0)) (Number (Fin 1))
             = Inr (Fin (inv_gamma (1 / lum 0 0 1)))"
    using t by (rule shadeToLuminance_Fin) simp_all
  have "inv_gamma 1 < inv_gamma (1 / lum 0 0 1)"
    unfolding lum_blue by (intro inv_gamma_strict) simp_all
  moreover have "inv_gamma 1 = 1" by (simp add: inv_gamma_def)
  ultimately show ?thesis using run by simp
qed

text \<open>
  Claim C8 says that every colorimetric function throws when an argument is not a
  number of the unit interval. At NaN none of the four does: the guard
  \<^verbatim>\<open>typeof v !== 'number' || v < 0 || v > 1\<close> lets NaN through, against its own message
  ("must be number in range of 0 <= v <= 1"), and NaN is returned.
\<close>

theorem nan_passes_the_guards:
  "linearize (Number NaN) = Inr NaN
   \<and> calcLuminance (Number NaN) (Number (Fin 0)) (Number (Fin 0)) = Inr NaN
   \<and> tint_at (interpolateTints (Number NaN) (Number (Fin 1)) (Number (Fin 0))) 0
       = Some (NaN, Fin 1, Fin 1)
   \<and> shadeToLuminance (Number NaN) (Number (Fin 1)) (Number (Fin 1)) (Number (Fin 1)) = Inr NaN"
proof -
  have a: "linearize (Number NaN) = Inr NaN" by (rule linearize_NaN)
  have b: "calcLuminance (Number NaN) (Number (Fin 0)) (Number (Fin 0)) = Inr NaN"
    by (simp add: calcLuminance_def linearize_NaN linearize_Fin js_gt_def)
  have c: "tint_at (interpolateTints (Number NaN) (Number (Fin 1)) (Number (Fin 0))) 0
       = Some (NaN, Fin 1, Fin 1)"
    by (simp add: interpolateTints_def js_gt_def js_sne_def js_sub_def Let_def tint_loop_eq
        tint_at_def tint_entry_def math_max_def)
  have d: "shadeToLuminance (Number NaN) (Number (Fin 1)) (Number (Fin 1)) (Number (Fin 1)) = Inr NaN"
    by (simp add: shadeToLuminance_def js_gt_def js_sub_def Let_def calcLuminance_Fin)
  from a b c d show ?thesis by blast
qed

section \<open>recalculateColour\<close>

lemma clamp_8bit_one: "clamp_8bit (Fin 1) = Fin 1"
  by (simp add: clamp_8bit_def)

lemma clamp_8bit_zero: "clamp_8bit (Fin 0) = Fin 0"
  by (simp add: clamp_8bit_def)

lemma calcLuminance_white: "calcLuminance (Number (Fin 1)) (Number (Fin 1)) (Number (Fin 1)) = Inr (Fin 1)"
  by (simp add: calcLuminance_Fin lum_white)

lemma calcLuminance_red_ok:
  "calcLuminance (Number (Fin 1)) (Number (Fin 0)) (Number (Fin 0)) = Inr (Fin (lum 1 0 0))"
  by (simp add: calcLuminance_Fin)

text \<open>
  Claim C3, as the code has it. With the hue pure red and the pointer at the top
  (\<open>position_bottom = 0\<close>, shade 1): at \<open>position_left = 0\<close> the current colour is white
  \<open>(1, 1, 1)\<close>, and at \<open>position_left = 1\<close> it is the hue \<open>(1, 0, 0)\<close>; the function does
  not throw. The left edge is white, as in the tint sequence.
\<close>

theorem recalculateColour_red:
  assumes "current_hue st = (Fin 1, Fin 0, Fin 0)" and "position_bottom st = Fin 0"
  shows "(position_left st = Fin 0 \<longrightarrow>
            fst (recalculateColour st) = None
            \<and> current_colour (snd (recalculateColour st)) = (Fin 1, Fin 1, Fin 1))
         \<and> (position_left st = Fin 1 \<longrightarrow>
            fst (recalculateColour st) = None
            \<and> current_colour (snd (recalculateColour st)) = (Fin 1, Fin 0, Fin 0))"
  using assms
  by (simp add: recalculateColour_def Let_def clamp_8bit_one clamp_8bit_zero
      calcLuminance_white calcLuminance_red_ok)

theorem recalculateColour_red_witness:
  "current_colour (snd (recalculateColour
     ((initial [] 0 0)\<lparr>current_hue := (Fin 1, Fin 0, Fin 0), position_left := Fin 0,
                       position_bottom := Fin 0\<rparr>))) = (Fin 1, Fin 1, Fin 1)
   \<and> current_colour (snd (recalculateColour
     ((initial [] 0 0)\<lparr>current_hue := (Fin 1, Fin 0, Fin 0), position_left := Fin 1,
                       position_bottom := Fin 0\<rparr>))) = (Fin 1, Fin 0, Fin 0)"
  using recalculateColour_red
          [of "(initial [] 0 0)\<lparr>current_hue := (Fin 1, Fin 0, Fin 0), position_left := Fin 0,
                                  position_bottom := Fin 0\<rparr>"]
        recalculateColour_red
          [of "(initial [] 0 0)\<lparr>current_hue := (Fin 1, Fin 0, Fin 0), position_left := Fin 1,
                                  position_bottom := Fin 0\<rparr>"]
  by simp

text \<open>
  Claim C3 as stated (left 0 and bottom 0 give pure red) fails: the colour computed there
  is not \<open>(1, 0, 0)\<close>.
\<close>

theorem recalculateColour_red_counterexample:
  "current_colour (snd (recalculateColour
     ((initial [] 0 0)\<lparr>current_hue := (Fin 1, Fin 0, Fin 0), position_left := Fin 0,
                       position_bottom := Fin 0\<rparr>))) \<noteq> (Fin 1, Fin 0, Fin 0)"
  by (simp add: recalculateColour_def Let_def clamp_8bit_one calcLuminance_white)

section \<open>renderChart\<close>

lemma put_pixel_length [simp]: "length (put_pixel idx px data) = length data"
  by (simp add: put_pixel_def split: prod.split)

lemma put_pixel_other:
  "k < idx \<or> idx + 4 \<le> k \<Longrightarrow> put_pixel idx px data ! k = data ! k"
  by (auto simp add: put_pixel_def split: prod.split)

lemma put_pixel_here:
  assumes "(i * 256 + j) * 4 + 3 < length data" "c < 4"
  shows "put_pixel ((i * 256 + j) * 4) (chart_pixel (tints ! j) (deltas ! j) i) data ! ((i * 256 + j) * 4 + c)
         = chart_byte tints deltas i j c"
proof -
  obtain r g b where px: "chart_pixel (tints ! j) (deltas ! j) i = (r, g, b)"
    by (cases "chart_pixel (tints ! j) (deltas ! j) i") auto
  from assms(2) consider "c = 0" | "c = 1" | "c = 2" | "c = 3" by linarith
  then show ?thesis
    using assms(1) by cases (simp_all add: put_pixel_def chart_byte_def px)
qed

lemma chart_columns_inv:
  assumes "256 \<le> length tints" "j0 \<le> 256" "(i * 256 + 256) * 4 \<le> length data"
  shows "\<exists>data'. chart_columns tints deltas i j0 data = (None, data')
           \<and> length data' = length data
           \<and> (\<forall>j c. j0 \<le> j \<and> j < 256 \<and> c < 4 \<longrightarrow>
                 data' ! ((i * 256 + j) * 4 + c) = chart_byte tints deltas i j c)
           \<and> (\<forall>k. k < (i * 256 + j0) * 4 \<or> (i * 256 + 256) * 4 \<le> k \<longrightarrow> data' ! k = data ! k)"
  using assms
proof (induction tints deltas i j0 data rule: chart_columns.induct)
  case (1 tints deltas i j data)
  show ?case
  proof (cases "j < 256")
    case False
    with 1(3) have "j = 256" by simp
    then show ?thesis by (subst chart_columns.simps) simp
  next
    case True
    let ?idx = "(i * 256 + j) * 4"
    let ?d1 = "put_pixel ?idx (chart_pixel (tints ! j) (deltas ! j) i) data"
    from True 1(2) have jl: "j < length tints" by simp
    have len1: "(i * 256 + 256) * 4 \<le> length ?d1" using 1(4) by simp
    from 1(1) [OF True jl 1(2) _ len1] True
    obtain data' where
      run: "chart_columns tints deltas i (Suc j) ?d1 = (None, data')"
      and len: "length data' = length ?d1"
      and new: "\<And>j' c. Suc j \<le> j' \<Longrightarrow> j' < 256 \<Longrightarrow> c < 4 \<Longrightarrow>
                 data' ! ((i * 256 + j') * 4 + c) = chart_byte tints deltas i j' c"
      and old: "\<And>k. k < (i * 256 + Suc j) * 4 \<or> (i * 256 + 256) * 4 \<le> k \<Longrightarrow> data' ! k = ?d1 ! k"
      by auto
    have eq: "chart_columns tints deltas i j data = (None, data')"
      using True jl run by (subst chart_columns.simps) simp
    have in_range: "?idx + 3 < length data" using True 1(4) by simp
    have A: "data' ! ((i * 256 + j') * 4 + c) = chart_byte tints deltas i j' c"
      if "j \<le> j'" "j' < 256" "c < 4" for j' c
    proof (cases "j' = j")
      case False
      with that show ?thesis by (intro new) simp_all
    next
      case eqj: True
      have "data' ! (?idx + c) = ?d1 ! (?idx + c)" using that(3) by (intro old) simp
      also have "\<dots> = chart_byte tints deltas i j c"
        using in_range that(3) by (rule put_pixel_here)
      finally show ?thesis using eqj by simp
    qed
    have B: "data' ! k = data ! k" if "k < ?idx \<or> (i * 256 + 256) * 4 \<le> k" for k
    proof -
      have "data' ! k = ?d1 ! k" using that by (intro old) auto
      also have "\<dots> = data ! k" using that True by (intro put_pixel_other) auto
      finally show ?thesis .
    qed
    show ?thesis using eq len A B by simp
  qed
qed

lemma chart_rows_inv:
  assumes "256 \<le> length tints" "i0 \<le> 256" "length data = 256 * 256 * 4"
  shows "\<exists>data'. chart_rows tints deltas i0 data = (None, data')
           \<and> length data' = length data
           \<and> (\<forall>i j c. i0 \<le> i \<and> i < 256 \<and> j < 256 \<and> c < 4 \<longrightarrow>
                 data' ! ((i * 256 + j) * 4 + c) = chart_byte tints deltas i j c)
           \<and> (\<forall>k. k < i0 * 256 * 4 \<longrightarrow> data' ! k = data ! k)"
  using assms
proof (induction tints deltas i0 data rule: chart_rows.induct)
  case (1 tints deltas i data)
  show ?case
  proof (cases "i < 256")
    case False
    with 1(3) have "i = 256" by simp
    then show ?thesis by (subst chart_rows.simps) simp
  next
    case True
    have fits: "(i * 256 + 256) * 4 \<le> length data" using True 1(4) by simp
    from chart_columns_inv [OF 1(2) _ fits, of 0 deltas]
    obtain d1 where
      cols: "chart_columns tints deltas i 0 data = (None, d1)"
      and len1: "length d1 = length data"
      and new1: "\<And>j c. j < 256 \<Longrightarrow> c < 4 \<Longrightarrow>
                  d1 ! ((i * 256 + j) * 4 + c) = chart_byte tints deltas i j c"
      and old1: "\<And>k. k < i * 256 * 4 \<or> (i * 256 + 256) * 4 \<le> k \<Longrightarrow> d1 ! k = data ! k"
      by auto
    have len1': "length d1 = 256 * 256 * 4" using len1 1(4) by simp
    from 1(1) [OF True 1(2) _ len1'] True
    obtain data' where
      run: "chart_rows tints deltas (Suc i) d1 = (None, data')"
      and len: "length data' = length d1"
      and new: "\<And>i' j c. Suc i \<le> i' \<Longrightarrow> i' < 256 \<Longrightarrow> j < 256 \<Longrightarrow> c < 4 \<Longrightarrow>
                 data' ! ((i' * 256 + j) * 4 + c) = chart_byte tints deltas i' j c"
      and old: "\<And>k. k < Suc i * 256 * 4 \<Longrightarrow> data' ! k = d1 ! k"
      by auto
    have eq: "chart_rows tints deltas i data = (None, data')"
      using True cols run by (subst chart_rows.simps) (simp add: and_then_def)
    have A: "data' ! ((i' * 256 + j) * 4 + c) = chart_byte tints deltas i' j c"
      if "i \<le> i'" "i' < 256" "j < 256" "c < 4" for i' j c
    proof (cases "i' = i")
      case False
      with that show ?thesis by (intro new) simp_all
    next
      case eqi: True
      have "data' ! ((i * 256 + j) * 4 + c) = d1 ! ((i * 256 + j) * 4 + c)"
        using that(3,4) by (intro old) simp
      also have "\<dots> = chart_byte tints deltas i j c" using that(3,4) by (rule new1)
      finally show ?thesis using eqi by simp
    qed
    have B: "data' ! k = data ! k" if "k < i * 256 * 4" for k
    proof -
      have "data' ! k = d1 ! k" using that by (intro old) simp
      also have "\<dots> = data ! k" using that by (intro old1) simp
      finally show ?thesis .
    qed
    show ?thesis using eq len len1 A B by simp
  qed
qed

lemma renderChart_bytes:
  assumes "256 \<le> length (current_tints st)"
  shows "\<exists>data. renderChart st = (None, st\<lparr>chart_canvas := data\<rparr>)
           \<and> length data = 256 * 256 * 4
           \<and> (\<forall>i j c. i < 256 \<and> j < 256 \<and> c < 4 \<longrightarrow>
                 data ! ((i * 256 + j) * 4 + c)
                 = chart_byte (current_tints st)
                     (map (\<lambda>(r, g, b). (js_div r (Fin 255), js_div g (Fin 255), js_div b (Fin 255)))
                          (current_tints st)) i j c)"
proof -
  let ?ds = "map (\<lambda>(r, g, b). (js_div r (Fin 255), js_div g (Fin 255), js_div b (Fin 255)))
                 (current_tints st)"
  have "length (replicate (256 * 256 * 4) (0::nat)) = 256 * 256 * 4" by simp
  from chart_rows_inv [OF assms _ this, of 0 ?ds]
  obtain data where
    run: "chart_rows (current_tints st) ?ds 0 (replicate (256 * 256 * 4) 0) = (None, data)"
    and len: "length data = 256 * 256 * 4"
    and new: "\<forall>i j c. i < 256 \<and> j < 256 \<and> c < 4 \<longrightarrow>
               data ! ((i * 256 + j) * 4 + c) = chart_byte (current_tints st) ?ds i j c"
    by auto
  have "renderChart st = (None, st\<lparr>chart_canvas := data\<rparr>)"
    unfolding renderChart_def Let_def run by simp
  with len new show ?thesis by blast
qed

lemma chart_byte_finite:
  assumes "j < length rs" "rs ! j = (r, g, b)"
  shows "chart_byte (finite_tints rs)
           (map (\<lambda>(r, g, b). (js_div r (Fin 255), js_div g (Fin 255), js_div b (Fin 255)))
                (finite_tints rs)) i j c
         = (if c = 0 then to_uint8_clamp (Fin (r * (1 - real i / 255) * 255))
            else if c = 1 then to_uint8_clamp (Fin (g * (1 - real i / 255) * 255))
            else if c = 2 then to_uint8_clamp (Fin (b * (1 - real i / 255) * 255))
            else 255)"
proof -
  have "x - x / 255 * real i = x * (1 - real i / 255)" for x :: real
    by (simp add: algebra_simps)
  then show ?thesis
    using assms by (simp add: chart_byte_def chart_pixel_def finite_tints_def)
qed

text \<open>
  Claim C7. For tints with finite components (at least 256 of them), \<open>renderChart\<close> does
  not throw and puts an image of 256 x 256 pixels of four bytes; the pixel of row \<open>i\<close>
  and column \<open>j\<close> holds, per channel, the component of tint \<open>j\<close> scaled by \<open>1 - i / 255\<close>,
  times 255 and stored as a clamped byte, and its alpha byte is 255.
\<close>

theorem renderChart_field:
  assumes "current_tints st = finite_tints rs" and "256 \<le> length rs"
    and "i < 256" and "j < 256" and "rs ! j = (r, g, b)"
  shows "fst (renderChart st) = None
         \<and> length (chart_canvas (snd (renderChart st))) = 256 * 256 * 4
         \<and> chart_canvas (snd (renderChart st)) ! ((i * 256 + j) * 4)
             = to_uint8_clamp (Fin (r * (1 - real i / 255) * 255))
         \<and> chart_canvas (snd (renderChart st)) ! ((i * 256 + j) * 4 + 1)
             = to_uint8_clamp (Fin (g * (1 - real i / 255) * 255))
         \<and> chart_canvas (snd (renderChart st)) ! ((i * 256 + j) * 4 + 2)
             = to_uint8_clamp (Fin (b * (1 - real i / 255) * 255))
         \<and> chart_canvas (snd (renderChart st)) ! ((i * 256 + j) * 4 + 3) = 255"
proof -
  let ?ds = "map (\<lambda>(r, g, b). (js_div r (Fin 255), js_div g (Fin 255), js_div b (Fin 255)))
                 (finite_tints rs)"
  have l: "256 \<le> length (current_tints st)" using assms(1,2) by (simp add: finite_tints_def)
  from renderChart_bytes [OF l] assms(1)
  obtain data where
    run: "renderChart st = (None, st\<lparr>chart_canvas := data\<rparr>)"
    and len: "length data = 256 * 256 * 4"
    and new: "\<And>i j c. i < 256 \<Longrightarrow> j < 256 \<Longrightarrow> c < 4 \<Longrightarrow>
               data ! ((i * 256 + j) * 4 + c) = chart_byte (finite_tints rs) ?ds i j c"
    by auto
  have jl: "j < length rs" using assms(2,4) by simp
  have b: "data ! ((i * 256 + j) * 4 + c)
           = (if c = 0 then to_uint8_clamp (Fin (r * (1 - real i / 255) * 255))
              else if c = 1 then to_uint8_clamp (Fin (g * (1 - real i / 255) * 255))
              else if c = 2 then to_uint8_clamp (Fin (b * (1 - real i / 255) * 255))
              else 255)" if "c < 4" for c
    using new [OF assms(3,4) that] chart_byte_finite [OF jl assms(5)] by simp
  show ?thesis using run len b [of 0] b [of 1] b [of 2] b [of 3] by simp
qed

theorem renderChart_field_witness:
  "chart_canvas (snd (renderChart ((initial [] 300 150)
       \<lparr>current_tints := finite_tints (replicate 256 (1, 1 / 2, 0))\<rparr>))) ! ((51 * 256 + 7) * 4)
     = 204
   \<and> chart_canvas (snd (renderChart ((initial [] 300 150)
       \<lparr>current_tints := finite_tints (replicate 256 (1, 1 / 2, 0))\<rparr>))) ! ((51 * 256 + 7) * 4 + 1)
     = 102
   \<and> chart_canvas (snd (renderChart ((initial [] 300 150)
       \<lparr>current_tints := finite_tints (replicate 256 (1, 1 / 2, 0))\<rparr>))) ! ((51 * 256 + 7) * 4 + 2)
     = 0
   \<and> chart_canvas (snd (renderChart ((initial [] 300 150)
       \<lparr>current_tints := finite_tints (replicate 256 (1, 1 / 2, 0))\<rparr>))) ! ((51 * 256 + 7) * 4 + 3)
     = 255"
  using renderChart_field
    [of "(initial [] 300 150)\<lparr>current_tints := finite_tints (replicate 256 (1, 1 / 2, 0))\<rparr>"
        "replicate 256 (1, 1 / 2, 0)" 51 7 1 "1 / 2" 0]
  by simp

section \<open>renderLines\<close>

lemma shade_of_returns:
  assumes "is_pure_tint r g b" "\<not> js_lt t (Fin 0)" "\<not> js_gt t (Fin 1)"
  shows "\<exists>s. shade_of t (Fin r, Fin g, Fin b) = Inr s"
proof -
  from assms(1) have rng: "0 \<le> r" "r \<le> 1" "0 \<le> g" "g \<le> 1" "0 \<le> b" "b \<le> 1"
    and one: "r = 1 \<or> g = 1 \<or> b = 1" by (simp_all add: is_pure_tint_def)
  have cl: "calcLuminance (Number (Fin r)) (Number (Fin g)) (Number (Fin b)) = Inr (Fin (lum r g b))"
    using rng by (rule calcLuminance_Fin)
  show ?thesis
    using assms(2,3) rng one cl
    by (auto simp add: shade_of_def shadeToLuminance_def Let_def)
qed

lemma shade_of_Fin:
  assumes "is_pure_tint r g b" "0 \<le> t" "t \<le> 1"
  shows "shade_of (Fin t) (Fin r, Fin g, Fin b) = Inr (Fin (inv_gamma (t / lum r g b)))"
  using assms by (simp add: shade_of_def shadeToLuminance_Fin)

lemma tint_channel_pure_tint:
  assumes "is_pure_hue r g b" "i \<le> 255"
  shows "is_pure_tint (tint_channel r i) (tint_channel g i) (tint_channel b i)"
proof -
  from assms(1) have rng: "0 \<le> r" "r \<le> 1" "0 \<le> g" "g \<le> 1" "0 \<le> b" "b \<le> 1"
    and one: "r = 1 \<or> g = 1 \<or> b = 1" by (simp_all add: is_pure_hue_def)
  from one have "tint_channel r i = 1 \<or> tint_channel g i = 1 \<or> tint_channel b i = 1"
    using tint_channel_one by auto
  then show ?thesis
    using rng assms(2) by (simp add: is_pure_tint_def tint_channel_bounds)
qed

lemma hue_tints_length [simp]: "length (hue_tints r g b) = 256"
  by (simp add: hue_tints_def)

lemma hue_tints_nth:
  "i < 256 \<Longrightarrow> hue_tints r g b ! i = (Fin (tint_channel r i), Fin (tint_channel g i), Fin (tint_channel b i))"
  by (simp add: hue_tints_def)

lemma hue_tints_shade:
  assumes "is_pure_hue r g b" "i < 256" "\<not> js_lt t (Fin 0)" "\<not> js_gt t (Fin 1)"
  shows "\<exists>s. shade_of t (hue_tints r g b ! i) = Inr s"
proof -
  have "is_pure_tint (tint_channel r i) (tint_channel g i) (tint_channel b i)"
    using assms(1,2) by (intro tint_channel_pure_tint) simp_all
  then show ?thesis using assms(2-4) by (simp add: hue_tints_nth shade_of_returns)
qed

lemma curve_start_returns:
  assumes "1 < length tints" "\<exists>s. shade_of t (tints ! 1) = Inr s"
  shows "fst (curve_start t tints h path) = None"
  using assms by (auto simp add: curve_start_def)

lemma curve_right_returns:
  assumes "\<forall>i < length tints. \<exists>s. shade_of t (tints ! i) = Inr s"
  shows "fst (curve_right t tints w h i path) = None"
  using assms
proof (induction t tints w h i path rule: curve_right.induct)
  case (1 t tints w h i path)
  show ?case
  proof (cases "i < length tints")
    case False
    then show ?thesis by (subst curve_right.simps) simp
  next
    case True
    with 1(2) obtain s where s: "shade_of t (tints ! i) = Inr s" by blast
    from 1(1) [OF True s 1(2)] True s show ?thesis by (subst curve_right.simps) simp
  qed
qed

lemma curve_left_returns:
  assumes "\<forall>i < length tints. \<exists>s. shade_of t (tints ! i) = Inr s" "n \<le> length tints"
  shows "fst (curve_left t tints w h n path) = None"
  using assms
proof (induction n arbitrary: path)
  case 0
  show ?case by simp
next
  case (Suc n)
  from Suc.prems(2) have "n < length tints" by simp
  with Suc.prems(1) obtain s where s: "shade_of t (tints ! n) = Inr s" by blast
  from Suc.prems have "n \<le> length tints" by simp
  from Suc.IH [OF Suc.prems(1) this] s show ?case by simp
qed

lemma and_then_returns:
  "fst r = None \<Longrightarrow> (\<And>x. fst (f x) = None) \<Longrightarrow> fst (and_then r f) = None"
  by (cases r) (auto simp add: and_then_def)

lemma finish_returns: "fst (finish cmds path) = None"
  by (simp add: finish_def)

lemma render_bw_returns:
  assumes "is_pure_hue r g b" "current_tints st = hue_tints r g b"
  shows "fst (render_bw st) = None"
proof -
  have ok: "\<forall>i < length (hue_tints r g b). \<exists>s. shade_of (Fin 0.1795) (hue_tints r g b ! i) = Inr s"
    using assms(1) by (simp add: hue_tints_shade)
  then have one: "\<exists>s. shade_of (Fin 0.1795) (hue_tints r g b ! 1) = Inr s" by simp
  show ?thesis
    unfolding render_bw_def assms(2)
    by (intro and_then_returns finish_returns curve_right_returns curve_start_returns ok one) simp
qed

lemma render_colour_returns:
  assumes "is_pure_hue r g b" "current_tints st = hue_tints r g b"
  shows "fst (render_colour st) = None"
proof -
  let ?ts = "hue_tints r g b"
  let ?u = "contrast_upper_luminance st"
  let ?l = "contrast_lower_luminance st"
  have upper:
    "fst (curve_start ?u ?ts h path) = None" "fst (curve_right ?u ?ts w h 0 path) = None"
    if "\<not> js_le ?u (Fin 0)" "\<not> js_ge ?u (Fin 1)" for w h path
  proof -
    from that have g: "\<not> js_lt ?u (Fin 0)" "\<not> js_gt ?u (Fin 1)"
      by (cases ?u; simp add: js_le_def js_ge_def js_gt_def)+
    have ok: "\<forall>i < length ?ts. \<exists>s. shade_of ?u (?ts ! i) = Inr s"
      using assms(1) g by (simp add: hue_tints_shade)
    then have one: "\<exists>s. shade_of ?u (?ts ! 1) = Inr s" by simp
    show "fst (curve_start ?u ?ts h path) = None"
      using one by (intro curve_start_returns) simp_all
    show "fst (curve_right ?u ?ts w h 0 path) = None"
      using ok by (rule curve_right_returns)
  qed
  have lower: "fst (curve_left ?l ?ts w h (length ?ts) path) = None"
    if "\<not> js_le ?l (Fin 0)" "\<not> js_ge ?l (Fin 1)" for w h path
  proof -
    from that have g: "\<not> js_lt ?l (Fin 0)" "\<not> js_gt ?l (Fin 1)"
      by (cases ?l; simp add: js_le_def js_ge_def js_gt_def)+
    have ok: "\<forall>i < length ?ts. \<exists>s. shade_of ?l (?ts ! i) = Inr s"
      using assms(1) g by (simp add: hue_tints_shade)
    then show ?thesis by (intro curve_left_returns) simp_all
  qed
  show ?thesis
    unfolding render_colour_def Let_def assms(2)
    using upper lower
    by (auto intro!: and_then_returns finish_returns)
qed

lemma renderLines_returns:
  assumes "is_pure_hue r g b" "current_tints st = hue_tints r g b"
  shows "fst (renderLines st) = None"
  using render_bw_returns [OF assms] render_colour_returns [OF assms]
  by (cases "render_bw st"; cases "render_colour st"; simp add: renderLines_def)

text \<open>
  Claim C9. For every pure hue, every entry of the sequence that \<open>interpolateTints\<close>
  returns is a pure tint: it has a component that is exactly 1. So every call of
  \<open>shadeToLuminance\<close> on an entry, with a target that passes the guard, returns, and
  \<open>renderLines\<close> throws in no mode and for no contrast bounds when the current tints are
  that sequence.
\<close>

theorem tints_are_pure_tints:
  assumes "is_pure_hue r g b"
  shows "\<exists>ts. interpolateTints (Number (Fin r)) (Number (Fin g)) (Number (Fin b)) = Inr ts
           \<and> (\<forall>i < 256. \<exists>r' g' b'. ts ! i = (Fin r', Fin g', Fin b')
                  \<and> (r' = 1 \<or> g' = 1 \<or> b' = 1) \<and> is_pure_tint r' g' b')
           \<and> (\<forall>i < 256. \<forall>t. \<not> js_lt t (Fin 0) \<and> \<not> js_gt t (Fin 1) \<longrightarrow>
                  (\<exists>s. shade_of t (ts ! i) = Inr s))
           \<and> (\<forall>st. current_tints st = ts \<longrightarrow> fst (renderLines st) = None)"
proof -
  have run: "interpolateTints (Number (Fin r)) (Number (Fin g)) (Number (Fin b)) = Inr (hue_tints r g b)"
    using assms by (simp add: interpolateTints_pure_hue hue_tints_def)
  have a: "\<exists>r' g' b'. hue_tints r g b ! i = (Fin r', Fin g', Fin b')
             \<and> (r' = 1 \<or> g' = 1 \<or> b' = 1) \<and> is_pure_tint r' g' b'" if "i < 256" for i
  proof -
    have "is_pure_tint (tint_channel r i) (tint_channel g i) (tint_channel b i)"
      using assms that by (intro tint_channel_pure_tint) simp_all
    then show ?thesis using that by (auto simp add: hue_tints_nth is_pure_tint_def)
  qed
  have b: "\<exists>s. shade_of t (hue_tints r g b ! i) = Inr s"
    if "i < 256" "\<not> js_lt t (Fin 0) \<and> \<not> js_gt t (Fin 1)" for i t
    using assms that by (simp add: hue_tints_shade)
  have c: "fst (renderLines st) = None" if "current_tints st = hue_tints r g b" for st
    using assms that by (rule renderLines_returns)
  from run a b c show ?thesis by blast
qed

theorem tints_are_pure_tints_witness:
  "is_pure_hue 0 1 1
   \<and> fst (renderLines ((initial [] 300 150)\<lparr>line_mode := ''B/W''\<rparr>)) = None
   \<and> fst (renderLines ((initial [] 300 150)\<lparr>line_mode := ''COLOUR'',
          contrast_upper_luminance := Fin (1 / 2), contrast_lower_luminance := Fin (1 / 4)\<rparr>)) = None"
proof -
  have h: "is_pure_hue 0 1 1" by (simp add: is_pure_hue_def)
  from tints_are_pure_tints [OF h] obtain ts where
    ts: "interpolateTints (Number (Fin 0)) (Number (Fin 1)) (Number (Fin 1)) = Inr ts"
    and ok: "\<And>st. current_tints st = ts \<Longrightarrow> fst (renderLines st) = None"
    by blast
  have "current_tints ((initial [] 300 150)\<lparr>line_mode := ''B/W''\<rparr>) = ts"
    "current_tints ((initial [] 300 150)\<lparr>line_mode := ''COLOUR'',
          contrast_upper_luminance := Fin (1 / 2), contrast_lower_luminance := Fin (1 / 4)\<rparr>) = ts"
    by (simp_all add: initial_def ts)
  with h ok show ?thesis by blast
qed

lemma curve_right_eq:
  assumes "\<forall>i < length tints. shade_of t (tints ! i) = Inr (S i)" "i \<le> length tints"
  shows "curve_right t tints w h i path
         = (None, path @ map (\<lambda>j. curve_point tints w h j (S j)) [i..<length tints])"
  using assms
proof (induction t tints w h i path rule: curve_right.induct)
  case (1 t tints w h i path)
  show ?case
  proof (cases "i < length tints")
    case False
    with 1(3) have "i = length tints" by simp
    then show ?thesis by (subst curve_right.simps) simp
  next
    case True
    with 1(2) have s: "shade_of t (tints ! i) = Inr (S i)" by blast
    have u: "[i..<length tints] = i # [Suc i..<length tints]" using True by (simp add: upt_conv_Cons)
    from True have "Suc i \<le> length tints" by simp
    from 1(1) [OF True s 1(2) this] True s u show ?thesis
      by (subst curve_right.simps) simp
  qed
qed

lemma path_points_append: "path_points (p @ q) = path_points p @ path_points q"
  by (induction p rule: path_points.induct) simp_all

lemma path_points_curve:
  "path_points (map (\<lambda>j. curve_point tints w h j (S j)) js)
   = map (\<lambda>j. (js_mul (js_div (Fin (real j)) (Fin (real (length tints) - 1))) (Fin (real w)),
               js_mul (js_sub (Fin 1) (S j)) (Fin (real h)))) js"
  by (induction js) (simp_all add: curve_point_def)

lemma render_bw_points:
  assumes "length tints = 256" "\<forall>i < 256. shade_of (Fin 0.1795) (tints ! i) = Inr (S i)"
    "current_tints st = tints"
  shows "fst (render_bw st) = None"
    "path_points (snd (render_bw st))
     = (Fin 0, snd (legibility_point tints (line_canvas_width st) (line_canvas_height st) 1))
       # legibility_polyline tints (line_canvas_width st) (line_canvas_height st)"
proof -
  let ?w = "line_canvas_width st" and ?h = "line_canvas_height st"
  have all: "\<forall>i < length tints. shade_of (Fin 0.1795) (tints ! i) = Inr (S i)"
    using assms(1,2) by simp
  have start: "curve_start (Fin 0.1795) tints ?h [BeginPath]
               = (None, [BeginPath, MoveTo (Fin 0) (js_mul (js_sub (Fin 1) (S 1)) (Fin (real ?h)))])"
    using assms(1,2) by (simp add: curve_start_def)
  have run: "render_bw st
             = (None, [BeginPath, MoveTo (Fin 0) (js_mul (js_sub (Fin 1) (S 1)) (Fin (real ?h)))]
                      @ map (\<lambda>j. curve_point tints ?w ?h j (S j)) [0..<length tints] @ [Stroke])"
    unfolding render_bw_def assms(3) start and_then_def prod.case option.case
      curve_right_eq [OF all le0] finish_def
    by simp
  show "fst (render_bw st) = None" by (simp add: run)
  have pts: "map (\<lambda>j. (js_mul (js_div (Fin (real j)) (Fin (real (256::nat) - 1))) (Fin (real ?w)),
                       js_mul (js_sub (Fin 1) (S j)) (Fin (real ?h)))) [0..<256]
             = legibility_polyline tints ?w ?h"
    unfolding legibility_polyline_def legibility_point_def
    using assms(2) by (intro map_cong) simp_all
  have first: "snd (legibility_point tints ?w ?h 1) = js_mul (js_sub (Fin 1) (S 1)) (Fin (real ?h))"
    using assms(2) by (simp add: legibility_point_def)
  show "path_points (snd (render_bw st))
     = (Fin 0, snd (legibility_point tints ?w ?h 1)) # legibility_polyline tints ?w ?h"
    unfolding run first pts [symmetric] assms(1)
    by (simp add: path_points_append path_points_curve assms(1))
qed

lemma aqua_shades:
  "shade_of (Fin 0.1795) (hue_tints 0 1 1 ! j)
   = Inr (Fin (inv_gamma (0.1795 / lum (tint_channel 0 j) 1 1)))" if "j < 256"
proof -
  have "is_pure_tint (tint_channel 0 j) 1 1"
    using that by (simp add: is_pure_tint_def tint_channel_bounds)
  then show ?thesis
    using that by (simp add: hue_tints_nth tint_channel_one shade_of_Fin)
qed

lemma aqua_first_shades:
  "inv_gamma (0.1795 / lum (tint_channel 0 0) 1 1) < inv_gamma (0.1795 / lum (tint_channel 0 1) 1 1)"
proof -
  have t0: "tint_channel 0 0 = 1" by (simp add: tint_channel_def)
  have t1: "tint_channel 0 1 = 254 / 255" by (simp add: tint_channel_def)
  have "lin (254 / 255) < 1" by (intro lin_less_one) simp_all
  then have lt: "lum (254 / 255) 1 1 < 1" by (simp add: lum_def lin_one)
  have pos: "0 < lum (254 / 255) 1 1" using lum_pos [of "254 / 255" 1 1] by simp
  from lt pos have "0.1795 / 1 < 0.1795 / lum (254 / 255) 1 1"
    by (intro divide_strict_left_mono) simp_all
  then have "0.1795 / lum 1 1 1 < 0.1795 / lum (254 / 255) 1 1"
    by (simp add: lum_white)
  moreover have "0.03928 / 12.92 \<le> 0.1795 / lum 1 1 1" by (simp add: lum_white)
  ultimately have "inv_gamma (0.1795 / lum 1 1 1) < inv_gamma (0.1795 / lum (254 / 255) 1 1)"
    by (intro inv_gamma_strict)
  then show ?thesis unfolding t0 t1 .
qed

lemma initial_tints: "current_tints (initial v w h) = hue_tints 0 1 1"
proof -
  have "is_pure_hue 0 1 1" by (simp add: is_pure_hue_def)
  then show ?thesis by (simp add: initial_def interpolateTints_pure_hue hue_tints_def)
qed

lemma renderLines_bw:
  "line_mode st = ''B/W'' \<Longrightarrow> line_canvas (snd (renderLines st)) = snd (render_bw st)"
  by (cases "render_bw st") (simp add: renderLines_def)

text \<open>
  Claim C5 says that the path of the black/white mode has exactly the 256 points of the
  columns. In the initial state (hue aqua) with that mode selected and a canvas of
  300 x 150, the path drawn starts with one more point, \<open>(0, (1 - shade) * height)\<close> for
  the shade of \<^verbatim>\<open>current_tints[1]\<close>, which is none of the 256: the curve is started at
  x = 0 with the tint of column 1 instead of column 0.
\<close>

theorem renderLines_bw_extra_point:
  "path_points (line_canvas (snd (renderLines ((initial [] 300 150)\<lparr>line_mode := ''B/W''\<rparr>))))
     = (Fin 0, snd (legibility_point (current_tints (initial [] 300 150)) 300 150 1))
       # legibility_polyline (current_tints (initial [] 300 150)) 300 150
   \<and> (Fin 0, snd (legibility_point (current_tints (initial [] 300 150)) 300 150 1))
       \<notin> set (legibility_polyline (current_tints (initial [] 300 150)) 300 150)"
proof -
  let ?st = "(initial [] 300 150)\<lparr>line_mode := ''B/W''\<rparr>"
  let ?ts = "hue_tints 0 1 1"
  let ?S = "\<lambda>j. Fin (inv_gamma (0.1795 / lum (tint_channel 0 j) 1 1))"
  have ts: "current_tints ?st = ?ts" by (simp add: initial_tints)
  have wh: "line_canvas_width ?st = 300" "line_canvas_height ?st = 150" by (simp_all add: initial_def)
  have sh: "\<forall>i < 256. shade_of (Fin 0.1795) (?ts ! i) = Inr (?S i)" using aqua_shades by blast
  have "path_points (snd (render_bw ?st))
        = (Fin 0, snd (legibility_point ?ts (line_canvas_width ?st) (line_canvas_height ?st) 1))
          # legibility_polyline ?ts (line_canvas_width ?st) (line_canvas_height ?st)"
    using hue_tints_length sh ts by (rule render_bw_points(2))
  then have pts: "path_points (line_canvas (snd (renderLines ?st)))
        = (Fin 0, snd (legibility_point ?ts 300 150 1)) # legibility_polyline ?ts 300 150"
    unfolding wh by (simp add: renderLines_bw)
  have pt: "legibility_point ?ts 300 150 j
            = (Fin (real j / 255 * 300), Fin ((1 - inv_gamma (0.1795 / lum (tint_channel 0 j) 1 1)) * 150))"
    if "j < 256" for j
    unfolding legibility_point_def aqua_shades [OF that] by simp
  have ne: "(Fin 0, snd (legibility_point ?ts 300 150 1)) \<noteq> legibility_point ?ts 300 150 j"
    if "j < 256" for j
  proof (cases "j = 0")
    case True
    with aqua_first_shades show ?thesis by (simp add: pt)
  next
    case False
    then show ?thesis using that by (simp add: pt)
  qed
  have "(Fin 0, snd (legibility_point ?ts 300 150 1)) \<notin> set (legibility_polyline ?ts 300 150)"
  proof
    assume "(Fin 0, snd (legibility_point ?ts 300 150 1)) \<in> set (legibility_polyline ?ts 300 150)"
    then obtain j where "j < 256"
      and "(Fin 0, snd (legibility_point ?ts 300 150 1)) = legibility_point ?ts 300 150 j"
      unfolding legibility_polyline_def by auto
    with ne show False by blast
  qed
  with pts show ?thesis by (simp add: initial_tints)
qed

section \<open>recalculateContrast\<close>

lemma hex_digit_f: "hex_digit CHR ''f'' = Some 15"
  by (simp add: hex_digit_def)

lemma parseInt16_ff: "parseInt16 ''ff'' = Fin 255"
  by (simp add: parseInt16_def is_white_space_def hex_digit_f hex_value_def)

lemma colour_byte_white:
  "colour_byte ''#ffffff'' 1 3 = Fin 255"
  "colour_byte ''#ffffff'' (Suc 0) 3 = Fin 255"
  "colour_byte ''#ffffff'' 3 5 = Fin 255"
  "colour_byte ''#ffffff'' 5 7 = Fin 255"
  by (simp_all add: colour_byte_def slice_def parseInt16_ff)

lemma renderLines_contrast:
  "contrast_upper_luminance (snd (renderLines st)) = contrast_upper_luminance st"
  "contrast_lower_luminance (snd (renderLines st)) = contrast_lower_luminance st"
  by (simp_all add: renderLines_def split: prod.split)

text \<open>
  Claim C4, as the code has it. With the reference colour white (\<^verbatim>\<open>#ffffff\<close>) and the
  ratio 21, \<open>recalculateContrast\<close> sets the upper luminance to \<open>0.05 * (20 * 1 * 21 + 21 - 1)
  = 22\<close>, which is at least 1 (the renderer then takes the top edge), and the lower
  luminance to \<open>(1 - 0.05 * 21 + 0.05) / 21 = 0\<close>, which is at most 0.
\<close>

theorem recalculateContrast_white_21:
  assumes "contrast_colour_input_value st = ''#ffffff''" and "contrast_ratio st = Fin 21"
  shows "contrast_upper_luminance (snd (recalculateContrast st)) = Fin 22
         \<and> js_ge (contrast_upper_luminance (snd (recalculateContrast st))) (Fin 1)
         \<and> contrast_lower_luminance (snd (recalculateContrast st)) = Fin 0
         \<and> js_le (contrast_lower_luminance (snd (recalculateContrast st))) (Fin 0)"
  using assms
  by (simp add: recalculateContrast_def Let_def colour_byte_white calcLuminance_white
      renderLines_contrast)

theorem recalculateContrast_white_21_witness:
  "contrast_upper_luminance
     (snd (recalculateContrast ((initial ''#ffffff'' 300 150)\<lparr>contrast_ratio := Fin 21\<rparr>))) = Fin 22
   \<and> contrast_lower_luminance
     (snd (recalculateContrast ((initial ''#ffffff'' 300 150)\<lparr>contrast_ratio := Fin 21\<rparr>))) = Fin 0"
  using recalculateContrast_white_21 [of "(initial ''#ffffff'' 300 150)\<lparr>contrast_ratio := Fin 21\<rparr>"]
  by (simp add: initial_def)

text \<open>
  Claim C4 as stated (the upper luminance is exactly 1) fails: it is not 1.
\<close>

theorem recalculateContrast_white_21_counterexample:
  "contrast_upper_luminance
     (snd (recalculateContrast ((initial ''#ffffff'' 300 150)\<lparr>contrast_ratio := Fin 21\<rparr>))) \<noteq> Fin 1"
  by (simp add: recalculateContrast_def Let_def initial_def colour_byte_white calcLuminance_white
      renderLines_contrast)

lemma colour_byte_NaN: "parseInt16 (slice a b v) = NaN \<Longrightarrow> colour_byte v a b = NaN"
  by (simp add: colour_byte_def math_min_def math_max_def)

text \<open>
  Claim C10. When one of the three components of the reference colour does not parse
  (\<open>parseInt\<close> gives NaN), \<open>recalculateContrast\<close> returns at once without an exception
  and leaves the state as it was, the two contrast luminances included.
\<close>

theorem recalculateContrast_unparsed:
  assumes "parseInt16 (slice 1 3 (contrast_colour_input_value st)) = NaN
           \<or> parseInt16 (slice 3 5 (contrast_colour_input_value st)) = NaN
           \<or> parseInt16 (slice 5 7 (contrast_colour_input_value st)) = NaN"
  shows "recalculateContrast st = (None, st)
         \<and> contrast_upper_luminance (snd (recalculateContrast st)) = contrast_upper_luminance st
         \<and> contrast_lower_luminance (snd (recalculateContrast st)) = contrast_lower_luminance st"
proof -
  from assms have "colour_byte (contrast_colour_input_value st) 1 3 = NaN
      \<or> colour_byte (contrast_colour_input_value st) 3 5 = NaN
      \<or> colour_byte (contrast_colour_input_value st) 5 7 = NaN"
    by (auto simp add: colour_byte_NaN)
  then have "recalculateContrast st = (None, st)"
    by (auto simp add: recalculateContrast_def Let_def)
  then show ?thesis by simp
qed

theorem recalculateContrast_unparsed_witness:
  "parseInt16 (slice 3 5 ''#ffzz00'') = NaN
   \<and> recalculateContrast (initial ''#ffzz00'' 300 150) = (None, initial ''#ffzz00'' 300 150)
   \<and> contrast_upper_luminance (snd (recalculateContrast (initial ''#ffzz00'' 300 150))) = Fin 1
   \<and> contrast_lower_luminance (snd (recalculateContrast (initial ''#ffzz00'' 300 150))) = Fin 0"
proof -
  have v: "contrast_colour_input_value (initial ''#ffzz00'' 300 150) = ''#ffzz00''"
    by (simp add: initial_def)
  have p: "parseInt16 (slice 3 5 ''#ffzz00'') = NaN"
    by (simp add: slice_def parseInt16_def is_white_space_def hex_digit_def)
  have u: "contrast_upper_luminance (initial ''#ffzz00'' 300 150) = Fin 1"
    "contrast_lower_luminance (initial ''#ffzz00'' 300 150) = Fin 0"
    by (simp_all add: initial_def)
  show ?thesis
    using recalculateContrast_unparsed [of "initial ''#ffzz00'' 300 150"] v p u by simp
qed

end
